theory Spec2Isabelle
  imports Complex_Main "HOL-Library.Char_ord" "HOL-Library.List_Lexorder"
    "HOL-Library.Product_Lexorder"
begin

section \<open>Values of the script\<close>

text \<open>
  The script \<^verbatim>\<open>scripts/diagrams.py\<close> is a linear pandas pipeline. A Python float is
  modelled by the real number it denotes exactly, or by one of the three special
  values. No arithmetic of this theory rounds: the one float operation of the
  script (the multiplication by 100) is a parameter of the model, see \<open>env\<close>.
\<close>

datatype pyfloat = Fin real | PosInf | NegInf | NaN

text \<open>
  A cell of the data frame is a Python object: a \<^verbatim>\<open>str\<close>, a float (pandas marks a
  missing value by the float NaN), an int, or the list that \<^verbatim>\<open>split\<close> returns. Each
  \<open>char\<close> stands for one character of a Python \<^verbatim>\<open>str\<close>.
\<close>

datatype cell = Str string | Num pyfloat | PyInt int | Lst "string list"

datatype error = KeyError | ValueError | TypeError | AttributeError | LangDetectException

text \<open>
  The columns of the CSV that the script reads, and the remaining ones, which it
  passes through.
\<close>

record row =
  product_name :: cell
  category :: cell
  rating :: cell
  rating_count :: cell
  review_content :: cell
  other_columns :: "cell list"

text \<open>Line 45 adds the column \<^verbatim>\<open>language\<close>.\<close>

record lrow = row +
  language :: string

text \<open>
  Line 67 adds the four score columns. \<^verbatim>\<open>compound\<close> is a cell, because line 71
  assigns strings to the column that line 67 filled with floats.
\<close>

record srow = lrow +
  negative :: real
  neutral :: real
  positive :: real
  compound :: cell

text \<open>Line 145 adds the column \<^verbatim>\<open>review_length\<close>.\<close>

record crow = srow +
  review_length :: int

text \<open>
  A data frame is the list of its rows in order, each with its index label.
  Labels may repeat (\<^verbatim>\<open>explode\<close> repeats them).
\<close>

type_synonym 'r frame = "(nat \<times> 'r) list"

text \<open>
  What the script calls and does not define: Python's \<^verbatim>\<open>float\<close> on a \<^verbatim>\<open>str\<close>
  (\<open>None\<close> is its ValueError) and on an int, \<^verbatim>\<open>str\<close> on a float and on a list,
  \<^verbatim>\<open>langdetect.detect\<close> (\<open>None\<close> is its LangDetectException), VADER's
  \<^verbatim>\<open>polarity_scores\<close> (the values of the keys neg, neu, pos, compound, in the order
  of the dictionary), the multiplication of two floats and the mean of a column of
  floats. Every definition below takes them as the parameter \<open>E\<close>.
\<close>

record env =
  py_float :: "string \<Rightarrow> pyfloat option"
  int_to_float :: "int \<Rightarrow> pyfloat"
  repr_float :: "pyfloat \<Rightarrow> string"
  repr_list :: "string list \<Rightarrow> string"
  detect :: "string \<Rightarrow> string option"
  polarity_scores :: "string \<Rightarrow> real \<times> real \<times> real \<times> real"
  fmul :: "real \<Rightarrow> real \<Rightarrow> real"
  fmean :: "real list \<Rightarrow> real"

section \<open>Python and pandas operations\<close>

text \<open>An exception ends the script: the next statement runs on a result only.\<close>

definition and_then :: "error + 'a \<Rightarrow> ('a \<Rightarrow> error + 'b) \<Rightarrow> error + 'b" where
  "and_then m f = (case m of Inl e \<Rightarrow> Inl e | Inr x \<Rightarrow> f x)"

text \<open>\<^verbatim>\<open>Series.apply(f)\<close>: the first element on which \<open>f\<close> raises ends the call.\<close>

fun map_err :: "('a \<Rightarrow> error + 'b) \<Rightarrow> 'a list \<Rightarrow> error + 'b list" where
  "map_err f [] = Inr []"
| "map_err f (x # xs) =
     (case f x of
        Inl e \<Rightarrow> Inl e
      | Inr y \<Rightarrow> (case map_err f xs of Inl e \<Rightarrow> Inl e | Inr ys \<Rightarrow> Inr (y # ys)))"

text \<open>
  \<^verbatim>\<open>df[col] = df[col].apply(f)\<close> and its like: every row gets the value computed
  from it, under its label, unless the computation raises.
\<close>

definition apply_rows :: "('r \<Rightarrow> error + 'q) \<Rightarrow> 'r frame \<Rightarrow> error + 'q frame" where
  "apply_rows f d =
     map_err (\<lambda>(i, r). case f r of Inl e \<Rightarrow> Inl e | Inr r' \<Rightarrow> Inr (i, r')) d"

text \<open>\<^verbatim>\<open>s.split(sep)\<close> for a separator of one character.\<close>

fun py_split :: "char \<Rightarrow> string \<Rightarrow> string list" where
  "py_split sep [] = [[]]"
| "py_split sep (c # cs) =
     (if c = sep then [] # py_split sep cs
      else (case py_split sep cs of
              [] \<Rightarrow> [[c]]
            | w # ws \<Rightarrow> (c # w) # ws))"

text \<open>\<^verbatim>\<open>s.strip(chars)\<close> and \<^verbatim>\<open>s.replace(c, "")\<close>.\<close>

definition py_strip :: "string \<Rightarrow> string \<Rightarrow> string" where
  "py_strip chars s =
     rev (dropWhile (\<lambda>c. c \<in> set chars) (rev (dropWhile (\<lambda>c. c \<in> set chars) s)))"

definition py_remove :: "char \<Rightarrow> string \<Rightarrow> string" where
  "py_remove c s = filter (\<lambda>d. d \<noteq> c) s"

text \<open>\<^verbatim>\<open>str(n)\<close> for an int.\<close>

fun str_nat :: "nat \<Rightarrow> string" where
  "str_nat n =
     (if n < 10 then [''0123456789'' ! n]
      else str_nat (n div 10) @ [''0123456789'' ! (n mod 10)])"

definition str_int :: "int \<Rightarrow> string" where
  "str_int i = (if i < 0 then CHR ''-'' # str_nat (nat (- i)) else str_nat (nat i))"

text \<open>\<^verbatim>\<open>str(x)\<close> and \<^verbatim>\<open>float(x)\<close> for a cell.\<close>

fun py_str :: "env \<Rightarrow> cell \<Rightarrow> string" where
  "py_str E (Str s) = s"
| "py_str E (PyInt n) = str_int n"
| "py_str E (Num f) = repr_float E f"
| "py_str E (Lst l) = repr_list E l"

fun float_cell :: "env \<Rightarrow> cell \<Rightarrow> error + pyfloat" where
  "float_cell E (Str s) = (case py_float E s of None \<Rightarrow> Inl ValueError | Some f \<Rightarrow> Inr f)"
| "float_cell E (Num f) = Inr f"
| "float_cell E (PyInt n) = Inr (int_to_float E n)"
| "float_cell E (Lst l) = Inl TypeError"

text \<open>
  \<^verbatim>\<open>df.loc[x, col]\<close> for a label \<open>x\<close>: the row of that label. With a repeated label
  pandas returns a Series, and the \<^verbatim>\<open>if\<close> of the script raises ValueError on its
  truth value.
\<close>

definition loc :: "nat \<Rightarrow> 'r frame \<Rightarrow> error + 'r" where
  "loc x d =
     (case filter (\<lambda>(i, r). i = x) d of
        [] \<Rightarrow> Inl KeyError
      | [(i, r)] \<Rightarrow> Inr r
      | _ \<Rightarrow> Inl ValueError)"

text \<open>\<^verbatim>\<open>df.drop(x, inplace=True)\<close>: removes the rows labelled \<open>x\<close>.\<close>

definition drop_label :: "nat \<Rightarrow> 'r frame \<Rightarrow> error + 'r frame" where
  "drop_label x d =
     (if x \<in> set (map fst d) then Inr (filter (\<lambda>(i, r). i \<noteq> x) d) else Inl KeyError)"

text \<open>
  The loop \<^verbatim>\<open>for x in df.index: if p(df.loc[x]): df.drop(x, inplace=True)\<close>.
  \<^verbatim>\<open>df.index\<close> is evaluated once, so the loop runs over the labels the frame had
  when it started (the list \<open>xs\<close>), while \<open>loc\<close> and \<open>drop_label\<close> work on the
  frame as the earlier iterations left it.
\<close>

fun drop_loop :: "('r \<Rightarrow> bool) \<Rightarrow> nat list \<Rightarrow> 'r frame \<Rightarrow> error + 'r frame" where
  "drop_loop p [] d = Inr d"
| "drop_loop p (x # xs) d =
     (case loc x d of
        Inl e \<Rightarrow> Inl e
      | Inr r \<Rightarrow>
          if p r then (case drop_label x d of Inl e \<Rightarrow> Inl e | Inr d' \<Rightarrow> drop_loop p xs d')
          else drop_loop p xs d)"

text \<open>
  The filter pass of the specification's design notes: a new collection that keeps
  exactly the rows not matching the drop predicate, in their order.
\<close>

definition filter_pass :: "('r \<Rightarrow> bool) \<Rightarrow> 'r frame \<Rightarrow> 'r frame" where
  "filter_pass p d = filter (\<lambda>(i, r). \<not> p r) d"

text \<open>\<^verbatim>\<open>df.reset_index(drop=True)\<close>.\<close>

definition reset_index :: "'r frame \<Rightarrow> 'r frame" where
  "reset_index d = zip [0..<length d] (map snd d)"

section \<open>Loader and cleaner (lines 15 to 42)\<close>

text \<open>Line 15: \<^verbatim>\<open>read_csv\<close> labels the rows of the file 0, 1, 2, ...\<close>

definition read_csv :: "row list \<Rightarrow> row frame" where
  "read_csv rows = zip [0..<length rows] rows"

text \<open>Line 18: \<^verbatim>\<open>drop_duplicates\<close> keeps the first of equal rows, with its label.\<close>

fun drop_dups :: "'r list \<Rightarrow> 'r frame \<Rightarrow> 'r frame" where
  "drop_dups seen [] = []"
| "drop_dups seen ((i, r) # d) =
     (if r \<in> set seen then drop_dups seen d else (i, r) # drop_dups (r # seen) d)"

definition drop_duplicates :: "'r frame \<Rightarrow> 'r frame" where
  "drop_duplicates d = drop_dups [] d"

text \<open>
  Line 26: \<^verbatim>\<open>.str.strip(...)\<close> on the review text. The accessor raises AttributeError
  on a numeric column (one that holds no \<^verbatim>\<open>str\<close>); on a column of objects it maps
  a \<^verbatim>\<open>str\<close> to the stripped \<^verbatim>\<open>str\<close> and anything else to NaN. The Python literal
  also lists the character U+1F538, which no \<open>char\<close> of this model is.
\<close>

definition strip_chars :: string where
  "strip_chars = [CHR '','', CHR ''*'', CHR ''-'', CHR ''_'', CHR 0x09, CHR 0x0A, CHR ''+'']"

fun is_Str :: "cell \<Rightarrow> bool" where
  "is_Str (Str s) = True"
| "is_Str c = False"

definition str_accessor_ok :: "cell list \<Rightarrow> bool" where
  "str_accessor_ok col = (col = [] \<or> list_ex is_Str col)"

fun strip_cell :: "cell \<Rightarrow> cell" where
  "strip_cell (Str s) = Str (py_strip strip_chars s)"
| "strip_cell c = Num NaN"

definition clean_content :: "row frame \<Rightarrow> error + row frame" where
  "clean_content d =
     (if str_accessor_ok (map (\<lambda>(i, r). review_content r) d)
      then Inr (map (\<lambda>(i, r). (i, r\<lparr>review_content := strip_cell (review_content r)\<rparr>)) d)
      else Inl AttributeError)"

text \<open>
  Line 29: \<^verbatim>\<open>x.split("|")\<close> on every category. Only a \<^verbatim>\<open>str\<close> has the method.
\<close>

fun split_cell :: "cell \<Rightarrow> error + cell" where
  "split_cell (Str s) = Inr (Lst (py_split CHR ''|'' s))"
| "split_cell c = Inl AttributeError"

definition split_row :: "row \<Rightarrow> error + row" where
  "split_row r =
     (case split_cell (category r) of Inl e \<Rightarrow> Inl e | Inr c \<Rightarrow> Inr (r\<lparr>category := c\<rparr>))"

definition category_split :: "row frame \<Rightarrow> error + row frame" where
  "category_split d = apply_rows split_row d"

text \<open>Lines 15 to 29: the frame that the rating loop starts on.\<close>

definition load_and_split :: "row list \<Rightarrow> error + row frame" where
  "load_and_split rows =
     and_then (clean_content (drop_duplicates (read_csv rows))) category_split"

text \<open>Lines 32 to 34: the rating loop drops the rows whose rating is \<^verbatim>\<open>'|'\<close>.\<close>

definition rating_is_bar :: "row \<Rightarrow> bool" where
  "rating_is_bar r = (rating r = Str ''|'')"

definition rating_loop :: "row frame \<Rightarrow> error + row frame" where
  "rating_loop d = drop_loop rating_is_bar (map fst d) d"

text \<open>Line 37: \<^verbatim>\<open>float(x)\<close> on every rating that is left.\<close>

definition float_row :: "env \<Rightarrow> row \<Rightarrow> error + row" where
  "float_row E r =
     (case float_cell E (rating r) of Inl e \<Rightarrow> Inl e | Inr f \<Rightarrow> Inr (r\<lparr>rating := Num f\<rparr>))"

definition rating_to_float :: "env \<Rightarrow> row frame \<Rightarrow> error + row frame" where
  "rating_to_float E d = apply_rows (float_row E) d"

definition rating_repair :: "env \<Rightarrow> row frame \<Rightarrow> error + row frame" where
  "rating_repair E d =
     and_then (rating_loop d) (rating_to_float E)"

text \<open>
  Lines 40 to 42: \<^verbatim>\<open>fillna(0)\<close>, \<^verbatim>\<open>astype(str)\<close>, \<^verbatim>\<open>.str.replace(",", "")\<close> and
  \<^verbatim>\<open>float(x)\<close> on the rating counts. \<^verbatim>\<open>fillna(0)\<close> writes the float 0.0 into a
  column of floats and the int 0 into a column of objects.
\<close>

fun is_Num :: "cell \<Rightarrow> bool" where
  "is_Num (Num f) = True"
| "is_Num c = False"

fun isna :: "cell \<Rightarrow> bool" where
  "isna (Num NaN) = True"
| "isna c = False"

definition fill_value :: "cell list \<Rightarrow> cell" where
  "fill_value col = (if list_all is_Num col then Num (Fin 0) else PyInt 0)"

definition fillna :: "cell \<Rightarrow> cell \<Rightarrow> cell" where
  "fillna z c = (if isna c then z else c)"

definition count_row :: "env \<Rightarrow> cell \<Rightarrow> row \<Rightarrow> error + row" where
  "count_row E z r =
     (case py_float E (py_remove CHR '','' (py_str E (fillna z (rating_count r)))) of
        None \<Rightarrow> Inl ValueError
      | Some f \<Rightarrow> Inr (r\<lparr>rating_count := Num f\<rparr>))"

definition rating_count_repair :: "env \<Rightarrow> row frame \<Rightarrow> error + row frame" where
  "rating_count_repair E d =
     apply_rows (count_row E (fill_value (map (\<lambda>(i, r). rating_count r) d))) d"

text \<open>Lines 15 to 42.\<close>

definition cleaner :: "env \<Rightarrow> row list \<Rightarrow> error + row frame" where
  "cleaner E rows =
     and_then (load_and_split rows) (\<lambda>d.
     and_then (rating_repair E d) (\<lambda>d.
     rating_count_repair E d))"

section \<open>Language filter (lines 45 to 52)\<close>

text \<open>Line 45: \<^verbatim>\<open>detect(x)\<close> on every review text; on a float it raises TypeError.\<close>

fun detect_cell :: "env \<Rightarrow> cell \<Rightarrow> error + string" where
  "detect_cell E (Str s) =
     (case detect E s of None \<Rightarrow> Inl LangDetectException | Some l \<Rightarrow> Inr l)"
| "detect_cell E c = Inl TypeError"

definition language_row :: "env \<Rightarrow> row \<Rightarrow> error + lrow" where
  "language_row E r =
     (case detect_cell E (review_content r) of
        Inl e \<Rightarrow> Inl e
      | Inr l \<Rightarrow> Inr (row.extend r (lrow.fields l)))"

definition add_language :: "env \<Rightarrow> row frame \<Rightarrow> error + lrow frame" where
  "add_language E d = apply_rows (language_row E) d"

text \<open>Lines 15 to 45: the frame that the language loop starts on.\<close>

definition with_language :: "env \<Rightarrow> row list \<Rightarrow> error + lrow frame" where
  "with_language E rows = and_then (cleaner E rows) (add_language E)"

text \<open>Lines 48 to 52: the language loop, then \<^verbatim>\<open>reset_index\<close>.\<close>

definition not_english :: "lrow \<Rightarrow> bool" where
  "not_english r = (language r \<noteq> ''en'')"

definition language_loop :: "lrow frame \<Rightarrow> error + lrow frame" where
  "language_loop d = drop_loop not_english (map fst d) d"

definition language_filter :: "lrow frame \<Rightarrow> error + lrow frame" where
  "language_filter d = and_then (language_loop d) (\<lambda>d. Inr (reset_index d))"

section \<open>Sentiment annotator (lines 56 to 71)\<close>

text \<open>
  The comparisons \<^verbatim>\<open>a >= b\<close> and \<^verbatim>\<open>a < b\<close> of two floats: both are false when one
  of them is NaN.
\<close>

fun fge :: "pyfloat \<Rightarrow> pyfloat \<Rightarrow> bool" where
  "fge NaN b = False"
| "fge a NaN = False"
| "fge PosInf b = True"
| "fge a NegInf = True"
| "fge (Fin a) (Fin b) = (a \<ge> b)"
| "fge a b = False"

fun flt :: "pyfloat \<Rightarrow> pyfloat \<Rightarrow> bool" where
  "flt NaN b = False"
| "flt a NaN = False"
| "flt (Fin a) (Fin b) = (a < b)"
| "flt PosInf b = False"
| "flt a NegInf = False"
| "flt a b = True"

text \<open>
  The float that the literal \<^verbatim>\<open>0.05\<close> denotes: the double nearest to 1/20, which is
  \<open>3602879701896397 / 2 ^ 56\<close>. The literal \<^verbatim>\<open>-0.05\<close> is its negation.
\<close>

definition lit_0_05 :: real where
  "lit_0_05 = 3602879701896397 / 72057594037927936"

definition get_sentiment :: "pyfloat \<Rightarrow> string" where
  "get_sentiment review =
     (if fge review (Fin lit_0_05) then ''Positivo''
      else if flt review (Fin (- lit_0_05)) then ''Negative''
      else ''Neutral'')"

text \<open>
  Lines 67 to 69: the four scores of every review text, assigned to the columns
  negative, neutral, positive, compound in this order. VADER calls \<^verbatim>\<open>encode\<close> on
  an argument that is no \<^verbatim>\<open>str\<close>, which a float does not have. On a frame with no
  rows \<^verbatim>\<open>apply\<close> returns an empty Series instead of a frame of four columns, and
  the assignment to the four columns raises ValueError.
\<close>

definition score_row :: "env \<Rightarrow> lrow \<Rightarrow> error + srow" where
  "score_row E r =
     (case review_content r of
        Str s \<Rightarrow>
          (case polarity_scores E s of
             (ng, nu, ps, cp) \<Rightarrow> Inr (lrow.extend r (srow.fields ng nu ps (Num (Fin cp)))))
      | _ \<Rightarrow> Inl AttributeError)"

definition add_scores :: "env \<Rightarrow> lrow frame \<Rightarrow> error + srow frame" where
  "add_scores E d = (if d = [] then Inl ValueError else apply_rows (score_row E) d)"

text \<open>
  Line 71: \<^verbatim>\<open>df["compound"] = df["compound"].apply(lambda x: get_sentiment(x))\<close>.
  Python compares an int with a float by value, and raises TypeError when it
  compares a \<^verbatim>\<open>str\<close> or a list with a float.
\<close>

fun sentiment_cell :: "cell \<Rightarrow> error + cell" where
  "sentiment_cell (Num f) = Inr (Str (get_sentiment f))"
| "sentiment_cell (PyInt n) = Inr (Str (get_sentiment (Fin (of_int n))))"
| "sentiment_cell c = Inl TypeError"

definition label_row :: "srow \<Rightarrow> error + srow" where
  "label_row r =
     (case sentiment_cell (compound r) of Inl e \<Rightarrow> Inl e | Inr c \<Rightarrow> Inr (r\<lparr>compound := c\<rparr>))"

definition label_compound :: "srow frame \<Rightarrow> error + srow frame" where
  "label_compound d = apply_rows label_row d"

definition annotate :: "env \<Rightarrow> lrow frame \<Rightarrow> error + srow frame" where
  "annotate E d = and_then (add_scores E d) label_compound"

text \<open>Lines 15 to 71: the data frame \<^verbatim>\<open>df\<close> that the reshaping starts from.\<close>

definition prepare :: "env \<Rightarrow> row list \<Rightarrow> error + srow frame" where
  "prepare E rows =
     and_then (with_language E rows) (\<lambda>d.
     and_then (language_filter d) (\<lambda>d.
     annotate E d))"

section \<open>Reshaping (lines 74 to 78)\<close>

text \<open>
  From line 74 on the script holds two frames. \<^verbatim>\<open>df.explode\<close> returns a new frame,
  so an assignment to a column of \<^verbatim>\<open>df_exploded\<close> leaves \<^verbatim>\<open>df\<close> as it is.
\<close>

record 'r state =
  df :: "srow frame"
  df_exploded :: "'r frame"

text \<open>
  Line 74: \<^verbatim>\<open>explode\<close> gives one row for each element of a list, under the label of
  the row it comes from; an empty list gives one row with NaN, and a cell that is
  no list is left as it is.
\<close>

fun explode_row :: "nat \<times> srow \<Rightarrow> srow frame" where
  "explode_row (i, r) =
     (case category r of
        Lst [] \<Rightarrow> [(i, r\<lparr>category := Num NaN\<rparr>)]
      | Lst cs \<Rightarrow> map (\<lambda>c. (i, r\<lparr>category := Str c\<rparr>)) cs
      | _ \<Rightarrow> [(i, r)])"

definition explode :: "srow frame \<Rightarrow> srow frame" where
  "explode d = concat (map explode_row d)"

definition explode_step :: "srow frame \<Rightarrow> srow state" where
  "explode_step d = \<lparr>df = d, df_exploded = explode d\<rparr>"

text \<open>Line 75: the three score columns of \<^verbatim>\<open>df_exploded\<close>, each times 100.\<close>

definition rescale_row :: "env \<Rightarrow> srow \<Rightarrow> srow" where
  "rescale_row E r =
     r\<lparr>negative := fmul E (negative r) 100,
       neutral := fmul E (neutral r) 100,
       positive := fmul E (positive r) 100\<rparr>"

definition rescale_step :: "env \<Rightarrow> srow state \<Rightarrow> srow state" where
  "rescale_step E s = s\<lparr>df_exploded := map (\<lambda>(i, r). (i, rescale_row E r)) (df_exploded s)\<rparr>"

text \<open>
  Line 78: \<^verbatim>\<open>sort_values(by=['positive', 'neutral', 'negative'], ascending=False)\<close>
  orders the rows by the first column, ties by the second, then by the third, the
  larger first; rows equal in all three keep their order. \<^verbatim>\<open>head(20)\<close> keeps the
  first 20.
\<close>

definition by_key :: "srow \<Rightarrow> real \<times> real \<times> real" where
  "by_key r = (positive r, neutral r, negative r)"

fun lex_ge :: "real \<times> real \<times> real \<Rightarrow> real \<times> real \<times> real \<Rightarrow> bool" where
  "lex_ge (a1, a2, a3) (b1, b2, b3) =
     (a1 > b1 \<or> (a1 = b1 \<and> (a2 > b2 \<or> (a2 = b2 \<and> a3 \<ge> b3))))"

fun insert_desc :: "nat \<times> srow \<Rightarrow> srow frame \<Rightarrow> srow frame" where
  "insert_desc x [] = [x]"
| "insert_desc x (y # ys) =
     (if lex_ge (by_key (snd x)) (by_key (snd y)) then x # y # ys
      else y # insert_desc x ys)"

definition sort_values :: "srow frame \<Rightarrow> srow frame" where
  "sort_values d = foldr insert_desc d []"

definition head :: "nat \<Rightarrow> 'r frame \<Rightarrow> 'r frame" where
  "head n d = take n d"

definition top20_step :: "srow state \<Rightarrow> srow state" where
  "top20_step s = s\<lparr>df_exploded := head 20 (sort_values (df_exploded s))\<rparr>"

definition reshape :: "env \<Rightarrow> srow frame \<Rightarrow> srow state" where
  "reshape E d = top20_step (rescale_step E (explode_step d))"

section \<open>Report renderer (lines 84 to 230)\<close>

text \<open>
  A chart is modelled by the data the script hands to the charting library.
  Chart 1 (lines 84 to 93): \<^verbatim>\<open>groupby('category')\<close> on \<^verbatim>\<open>df_exploded\<close>, the groups
  in the order of their keys, with the mean of each score column. The categories
  are strings here, or NaN, and a row whose category is NaN is in no group.
\<close>

definition group_keys :: "'a srow_scheme frame \<Rightarrow> string list" where
  "group_keys d = sort (remdups (concat (map (\<lambda>(i, r). case category r of Str c \<Rightarrow> [c] | _ \<Rightarrow> []) d)))"

definition group_rows :: "string \<Rightarrow> 'a srow_scheme frame \<Rightarrow> 'a srow_scheme list" where
  "group_rows c d = map snd (filter (\<lambda>(i, r). category r = Str c) d)"

definition chart1 :: "env \<Rightarrow> srow state \<Rightarrow> (string \<times> real \<times> real \<times> real) list" where
  "chart1 E s =
     map (\<lambda>c. (c, fmean E (map negative (group_rows c (df_exploded s))),
                  fmean E (map neutral (group_rows c (df_exploded s))),
                  fmean E (map positive (group_rows c (df_exploded s)))))
       (group_keys (df_exploded s))"

text \<open>
  Chart 2 (lines 96 to 110): \<^verbatim>\<open>melt\<close> lists the rating, the name of the score column
  and the score, column after column. Chart 3 (lines 113 to 142) is the same without
  the rating, over two of the columns.
\<close>

definition chart2 :: "srow state \<Rightarrow> (cell \<times> string \<times> real) list" where
  "chart2 s =
     map (\<lambda>(i, r). (rating r, ''negative'', negative r)) (df_exploded s) @
     map (\<lambda>(i, r). (rating r, ''neutral'', neutral r)) (df_exploded s) @
     map (\<lambda>(i, r). (rating r, ''positive'', positive r)) (df_exploded s)"

definition chart3 :: "srow state \<Rightarrow> (string \<times> real) list" where
  "chart3 s =
     map (\<lambda>(i, r). (''negative'', negative r)) (df_exploded s) @
     map (\<lambda>(i, r). (''positive'', positive r)) (df_exploded s)"

text \<open>Line 145: \<^verbatim>\<open>len(str(x))\<close> of every review text, as a new column.\<close>

definition add_review_length :: "env \<Rightarrow> srow state \<Rightarrow> crow state" where
  "add_review_length E s =
     \<lparr>df = df s,
      df_exploded =
        map (\<lambda>(i, r). (i, srow.extend r (crow.fields (int (length (py_str E (review_content r)))))))
          (df_exploded s)\<rparr>"

text \<open>
  Chart 4 (lines 146 to 164): for every row the values of \<^verbatim>\<open>x='review_length'\<close>,
  \<^verbatim>\<open>y='compound'\<close> and \<^verbatim>\<open>color='compound'\<close>.
\<close>

definition chart4 :: "crow state \<Rightarrow> (int \<times> cell \<times> cell) list" where
  "chart4 s = map (\<lambda>(i, r). (review_length r, compound r, compound r)) (df_exploded s)"

text \<open>Chart 5 (lines 167 to 192): two bar traces over the category column.\<close>

record bar =
  trace_x :: "cell list"
  trace_y :: "real list"
  trace_name :: string

definition chart5 :: "crow state \<Rightarrow> bar list" where
  "chart5 s =
     [\<lparr>trace_x = map (\<lambda>(i, r). category r) (df_exploded s),
       trace_y = map (\<lambda>(i, r). positive r) (df_exploded s),
       trace_name = ''Positivo''\<rparr>,
      \<lparr>trace_x = map (\<lambda>(i, r). category r) (df_exploded s),
       trace_y = map (\<lambda>(i, r). negative r) (df_exploded s),
       trace_name = ''Negativo''\<rparr>]"

text \<open>
  Line 195: \<^verbatim>\<open>x[:10] + '...' if len(x) > 10 else x\<close> on every product name. A float or
  an int has no \<^verbatim>\<open>len\<close>, and a list cannot be added to a \<^verbatim>\<open>str\<close>.
\<close>

definition truncate_name :: "string \<Rightarrow> string" where
  "truncate_name x = (if length x > 10 then take 10 x @ ''...'' else x)"

fun truncate_cell :: "cell \<Rightarrow> error + cell" where
  "truncate_cell (Str x) = Inr (Str (truncate_name x))"
| "truncate_cell (Lst l) = (if length l > 10 then Inl TypeError else Inr (Lst l))"
| "truncate_cell c = Inl TypeError"

definition truncate_row :: "crow \<Rightarrow> error + crow" where
  "truncate_row r =
     (case truncate_cell (product_name r) of
        Inl e \<Rightarrow> Inl e
      | Inr c \<Rightarrow> Inr (r\<lparr>product_name := c\<rparr>))"

definition truncate_names :: "crow state \<Rightarrow> error + crow state" where
  "truncate_names s =
     and_then (apply_rows truncate_row (df_exploded s)) (\<lambda>d. Inr (s\<lparr>df_exploded := d\<rparr>))"

text \<open>Chart 6 (lines 197 to 230): three bar traces over the product names.\<close>

definition chart6 :: "crow state \<Rightarrow> bar list" where
  "chart6 s =
     [\<lparr>trace_x = map (\<lambda>(i, r). product_name r) (df_exploded s),
       trace_y = map (\<lambda>(i, r). positive r) (df_exploded s),
       trace_name = ''Positivo''\<rparr>,
      \<lparr>trace_x = map (\<lambda>(i, r). product_name r) (df_exploded s),
       trace_y = map (\<lambda>(i, r). neutral r) (df_exploded s),
       trace_name = ''Neutral''\<rparr>,
      \<lparr>trace_x = map (\<lambda>(i, r). product_name r) (df_exploded s),
       trace_y = map (\<lambda>(i, r). negative r) (df_exploded s),
       trace_name = ''Negativo''\<rparr>]"

text \<open>
  The six files of the report, named as the script names them. The first five are
  written before line 195 runs, so an exception of that line loses the sixth only.
\<close>

record report =
  sentimientos_por_categoria :: "(string \<times> real \<times> real \<times> real) list"
  sentimientos_por_rating :: "(cell \<times> string \<times> real) list"
  densidad_sentimientos :: "(string \<times> real) list"
  longitud_vs_sentimiento :: "(int \<times> cell \<times> cell) list"
  reviews_categoria_stack :: "bar list"
  sentimientos_por_producto :: "error + bar list"

definition render :: "env \<Rightarrow> srow state \<Rightarrow> report" where
  "render E s =
     \<lparr>sentimientos_por_categoria = chart1 E s,
      sentimientos_por_rating = chart2 s,
      densidad_sentimientos = chart3 s,
      longitud_vs_sentimiento = chart4 (add_review_length E s),
      reviews_categoria_stack = chart5 (add_review_length E s),
      sentimientos_por_producto =
        and_then (truncate_names (add_review_length E s)) (\<lambda>s'. Inr (chart6 s'))\<rparr>"

text \<open>The whole script, from the rows of the CSV file to the report.\<close>

definition run :: "env \<Rightarrow> row list \<Rightarrow> error + report" where
  "run E rows = and_then (prepare E rows) (\<lambda>d. Inr (render E (reshape E d)))"

section \<open>A sample run\<close>

text \<open>
  Stand-ins for the collaborators, for running the script on the sample below. The
  float reader takes unsigned decimal numerals, the float printer is right for whole
  numbers, the detector and the scorer look at the first word and at the
  exclamation marks, and the arithmetic is exact.
\<close>

fun read_digits :: "nat \<Rightarrow> string \<Rightarrow> nat option" where
  "read_digits acc [] = Some acc"
| "read_digits acc (c # cs) =
     (case map_of (zip ''0123456789'' [0, 1, 2, 3, 4, 5, 6, 7, 8, 9]) c of
        None \<Rightarrow> None
      | Some k \<Rightarrow> read_digits (10 * acc + k) cs)"

definition sample_float :: "string \<Rightarrow> pyfloat option" where
  "sample_float s =
     (case py_split CHR ''.'' s of
        [a] \<Rightarrow> (if a = [] then None else map_option (\<lambda>m. Fin (real m)) (read_digits 0 a))
      | [a, b] \<Rightarrow>
          (if a = [] \<or> b = [] then None
           else (case (read_digits 0 a, read_digits 0 b) of
                   (Some m, Some n) \<Rightarrow> Some (Fin (real m + real n / 10 ^ length b))
                 | _ \<Rightarrow> None))
      | _ \<Rightarrow> None)"

fun sample_repr :: "pyfloat \<Rightarrow> string" where
  "sample_repr (Fin x) = str_int \<lfloor>x\<rfloor> @ ''.0''"
| "sample_repr PosInf = ''inf''"
| "sample_repr NegInf = ''-inf''"
| "sample_repr NaN = ''nan''"

definition sample_detect :: "string \<Rightarrow> string option" where
  "sample_detect s =
     (if s = [] then None else if take 3 s = ''Muy'' then Some ''es'' else Some ''en'')"

definition sample_scores :: "string \<Rightarrow> real \<times> real \<times> real \<times> real" where
  "sample_scores s =
     (if CHR ''!'' \<in> set s then (0, 1 / 2, 1 / 2, 1 / 2) else (1 / 4, 3 / 4, 0, - (1 / 4)))"

definition sample_env :: env where
  "sample_env =
     \<lparr>py_float = sample_float,
      int_to_float = (\<lambda>n. Fin (of_int n)),
      repr_float = sample_repr,
      repr_list = concat,
      detect = sample_detect,
      polarity_scores = sample_scores,
      fmul = (\<lambda>x y. x * y),
      fmean = (\<lambda>xs. sum_list xs / real (length xs))\<rparr>"

definition sample_row :: "string \<Rightarrow> string \<Rightarrow> string \<Rightarrow> cell \<Rightarrow> string \<Rightarrow> row" where
  "sample_row n c r k t =
     \<lparr>product_name = Str n, category = Str c, rating = Str r, rating_count = k,
      review_content = Str t, other_columns = []\<rparr>"

definition cable :: row where
  "cable = sample_row ''Braided USB Cable'' ''Computers|Cables'' ''4'' (Str ''1,234'') ''Great cable!''"

definition barred :: row where
  "barred = sample_row ''Cable'' ''Electronics'' ''|'' (Str ''99'') ''Fine''"

definition funda :: row where
  "funda = sample_row ''Funda'' ''Home'' ''3'' (Str ''24,269'') ''Muy bueno''"

definition lamp :: row where
  "lamp = sample_row ''Lamp'' ''Home|Lighting|Lamps'' ''5'' (Num NaN) ''works''"

definition sample_rows :: "row list" where
  "sample_rows = [lamp, barred, funda, lamp, cable]"

text \<open>The frames of the sample run at lines 29, 37, 42, 45, 52 and 73.\<close>

definition sample_split :: "row frame" where
  "sample_split =
     [(0, lamp\<lparr>category := Lst [''Home'', ''Lighting'', ''Lamps'']\<rparr>),
      (1, barred\<lparr>category := Lst [''Electronics'']\<rparr>),
      (2, funda\<lparr>category := Lst [''Home'']\<rparr>),
      (4, cable\<lparr>category := Lst [''Computers'', ''Cables'']\<rparr>)]"

definition sample_rated :: "row frame" where
  "sample_rated =
     [(0, lamp\<lparr>category := Lst [''Home'', ''Lighting'', ''Lamps''], rating := Num (Fin 5)\<rparr>),
      (2, funda\<lparr>category := Lst [''Home''], rating := Num (Fin 3)\<rparr>),
      (4, cable\<lparr>category := Lst [''Computers'', ''Cables''], rating := Num (Fin 4)\<rparr>)]"

definition sample_clean :: "row frame" where
  "sample_clean =
     [(0, lamp\<lparr>category := Lst [''Home'', ''Lighting'', ''Lamps''], rating := Num (Fin 5),
               rating_count := Num (Fin 0)\<rparr>),
      (2, funda\<lparr>category := Lst [''Home''], rating := Num (Fin 3),
                rating_count := Num (Fin 24269)\<rparr>),
      (4, cable\<lparr>category := Lst [''Computers'', ''Cables''], rating := Num (Fin 4),
                rating_count := Num (Fin 1234)\<rparr>)]"

definition sample_detected :: "lrow frame" where
  "sample_detected =
     map (\<lambda>((i, r), l). (i, row.extend r (lrow.fields l))) (zip sample_clean [''en'', ''es'', ''en''])"

definition sample_english :: "lrow frame" where
  "sample_english = [(0, snd (sample_detected ! 0)), (1, snd (sample_detected ! 2))]"

definition sample_annotated :: "srow frame" where
  "sample_annotated =
     [(0, lrow.extend (snd (sample_english ! 0)) (srow.fields (1 / 4) (3 / 4) 0 (Str ''Negative''))),
      (1, lrow.extend (snd (sample_english ! 1)) (srow.fields 0 (1 / 2) (1 / 2) (Str ''Positivo'')))]"

text \<open>
  The slice of the sample run at line 78 and its state at line 145. Then a second
  frame for line 74, of four rows with 12, 2, 9 and 1 categories and scores that
  put them in another order than their labels, and the 24 rows that line 78 has to
  make of it before it cuts: the rows of label 1 first (the largest \<^verbatim>\<open>positive\<close>), then
  those of label 2 (the larger \<^verbatim>\<open>neutral\<close>), then the row of label 3 (the larger
  \<^verbatim>\<open>negative\<close>), then those of label 0, each group in the order of its categories.
\<close>

definition sample_slice :: "srow frame" where
  "sample_slice =
     map (\<lambda>(i, c, ng, nu, ps). (i, (snd (sample_annotated ! i))
            \<lparr>category := Str c, negative := ng, neutral := nu, positive := ps\<rparr>))
       [(1, ''Computers'', 0, 50, 50), (1, ''Cables'', 0, 50, 50),
        (0, ''Home'', 25, 75, 0), (0, ''Lighting'', 25, 75, 0), (0, ''Lamps'', 25, 75, 0)]"

definition sample_state :: "crow state" where
  "sample_state = add_review_length sample_env \<lparr>df = sample_annotated, df_exploded = sample_slice\<rparr>"

definition graded :: "cell \<Rightarrow> real \<Rightarrow> real \<Rightarrow> real \<Rightarrow> srow" where
  "graded c ng nu ps =
     (snd (sample_annotated ! 0))\<lparr>category := c, negative := ng, neutral := nu, positive := ps\<rparr>"

definition many_categories :: "srow frame" where
  "many_categories =
     [(0, graded (Lst (map (\<lambda>c. [c]) ''abcdefghijkl'')) (1 / 4) (3 / 4) 0),
      (1, graded (Lst [''x'', ''y'']) 0 (1 / 2) (1 / 2)),
      (2, graded (Lst (map (\<lambda>c. [c]) ''mnopqrstu'')) 0 1 0),
      (3, graded (Lst [''z'']) (251 / 1000) (3 / 4) 0)]"

definition many_ranked :: "srow frame" where
  "many_ranked =
     map (\<lambda>c. (1, graded (Str [c]) 0 50 50)) ''xy'' @
     map (\<lambda>c. (2, graded (Str [c]) 0 100 0)) ''mnopqrstu'' @
     [(3, graded (Str ''z'') (251 / 10) 75 0)] @
     map (\<lambda>c. (0, graded (Str [c]) 25 75 0)) ''abcdefghijkl''"

section \<open>Notions of the statements\<close>


text \<open>
  The relation between a row \<open>x\<close> and the row \<open>y\<close> that lines 40 to 42 make of it:
  same label, the rating count a float \<open>f\<close>, all else as it was; \<open>f\<close> is 0.0 for a
  missing count and, for a \<^verbatim>\<open>str\<close>, what \<^verbatim>\<open>float\<close> reads in the characters of it
  that are no commas.
\<close>

definition counted :: "env \<Rightarrow> nat \<times> row \<Rightarrow> nat \<times> row \<Rightarrow> bool" where
  "counted E x y =
     (fst y = fst x \<and>
      (\<exists>f. snd y = (snd x)\<lparr>rating_count := Num f\<rparr> \<and>
           (isna (rating_count (snd x)) \<longrightarrow> f = Fin 0) \<and>
           (\<forall>s. rating_count (snd x) = Str s \<longrightarrow> py_float E (filter (\<lambda>c. c \<noteq> CHR '','') s) = Some f) \<and>
           (rating_count (snd x) = Str ''1,234'' \<longrightarrow> f = Fin 1234)))"

text \<open>
  The relation between a row \<open>x\<close> and the row \<open>y\<close> that lines 67 to 71 make of it:
  same label, the three scores of the review text in their columns, and in the
  column \<^verbatim>\<open>compound\<close> the label of the compound score.
\<close>

definition labelled :: "env \<Rightarrow> nat \<times> lrow \<Rightarrow> nat \<times> srow \<Rightarrow> bool" where
  "labelled E x y =
     (fst y = fst x \<and>
      (\<exists>s ng nu ps cp.
          review_content (snd x) = Str s \<and> polarity_scores E s = (ng, nu, ps, cp) \<and>
          snd y = lrow.extend (snd x)
            (srow.fields ng nu ps
              (Str (if lit_0_05 \<le> cp then ''Positivo''
                    else if cp < - lit_0_05 then ''Negative''
                    else ''Neutral'')))))"

text \<open>The three labels, as cells.\<close>

definition label_cells :: "cell set" where
  "label_cells = {Str ''Positivo'', Str ''Negative'', Str ''Neutral''}"

text \<open>The category list of a row, and what line 29 leaves in the category cell.\<close>

definition category_list :: "'a row_scheme \<Rightarrow> string list" where
  "category_list r = (case category r of Lst cs \<Rightarrow> cs | _ \<Rightarrow> [])"

definition split_category :: "'a row_scheme \<Rightarrow> bool" where
  "split_category r = (\<exists>s. category r = Lst (py_split CHR ''|'' s))"

text \<open>
  The float product of \<open>x\<close> and 100 is within the relative error \<open>\<delta>\<close> of the exact
  product. For doubles this holds with \<open>\<delta> = 2 ^ -53\<close> unless the product overflows
  or is subnormal, which no score between 0 and 1 with three decimals makes it.
\<close>

definition rounds_within :: "env \<Rightarrow> real \<Rightarrow> real \<Rightarrow> bool" where
  "rounds_within E \<delta> x = (\<bar>fmul E x 100 - x * 100\<bar> \<le> \<delta> * \<bar>x * 100\<bar>)"

text \<open>
  The relation between a row \<open>x\<close> of \<^verbatim>\<open>df_exploded\<close> and the row \<open>y\<close> that line 75 makes
  of it: same label, the three scores multiplied, all else as it was; and when the
  three products are within \<open>\<delta>\<close> and the three scores of \<open>x\<close> add up to 1 within
  \<open>\<epsilon>\<close>, those of \<open>y\<close> add up to 100 within 100 times \<open>\<epsilon>\<close> and the rounding of the
  three products.
\<close>

definition rescaled :: "env \<Rightarrow> real \<Rightarrow> nat \<times> srow \<Rightarrow> nat \<times> srow \<Rightarrow> bool" where
  "rescaled E \<delta> x y =
     (fst y = fst x \<and>
      snd y = (snd x)\<lparr>negative := fmul E (negative (snd x)) 100,
                      neutral := fmul E (neutral (snd x)) 100,
                      positive := fmul E (positive (snd x)) 100\<rparr> \<and>
      (rounds_within E \<delta> (negative (snd x)) \<and> rounds_within E \<delta> (neutral (snd x)) \<and>
       rounds_within E \<delta> (positive (snd x)) \<longrightarrow>
         (\<forall>\<epsilon>. \<bar>negative (snd x) + neutral (snd x) + positive (snd x) - 1\<bar> \<le> \<epsilon> \<longrightarrow>
              \<bar>negative (snd y) + neutral (snd y) + positive (snd y) - 100\<bar>
                \<le> 100 * \<epsilon> + \<delta> * (\<bar>negative (snd x) * 100\<bar> + \<bar>neutral (snd x) * 100\<bar>
                                      + \<bar>positive (snd x) * 100\<bar>))))"

text \<open>
  The order that line 78 asks for: the row \<open>x\<close> may stand before the row \<open>y\<close> when the
  triple (positive, neutral, negative) of \<open>y\<close> is at most that of \<open>x\<close> in the
  lexicographic order of triples.
\<close>

definition ranked :: "nat \<times> srow \<Rightarrow> nat \<times> srow \<Rightarrow> bool" where
  "ranked x y =
     ((positive (snd y), neutral (snd y), negative (snd y))
        \<le> (positive (snd x), neutral (snd x), negative (snd x)))"

text \<open>
  What a stable descending sort makes of the frame \<open>xs\<close>: the frame \<open>ys\<close> is ranked,
  and for every triple of scores the rows with these scores are the same in \<open>ys\<close>
  as in \<open>xs\<close>, in the same order. So \<open>ys\<close> holds the rows of \<open>xs\<close>, and there is one
  such frame only.
\<close>

definition stable_ranking :: "srow frame \<Rightarrow> srow frame \<Rightarrow> bool" where
  "stable_ranking xs ys =
     (sorted_wrt ranked ys \<and>
      (\<forall>k. filter (\<lambda>x. (positive (snd x), neutral (snd x), negative (snd x)) = k) ys
         = filter (\<lambda>x. (positive (snd x), neutral (snd x), negative (snd x)) = k) xs))"

text \<open>
  The relation between a row \<open>x\<close> of \<^verbatim>\<open>df_exploded\<close> and the row \<open>y\<close> that line 195 makes
  of it: same label, a product name that is a \<^verbatim>\<open>str\<close> truncated, all else as it was.
\<close>

definition truncated :: "nat \<times> crow \<Rightarrow> nat \<times> crow \<Rightarrow> bool" where
  "truncated x y =
     (fst y = fst x \<and>
      (\<exists>c. truncate_cell (product_name (snd x)) = Inr c \<and> snd y = (snd x)\<lparr>product_name := c\<rparr>) \<and>
      (\<forall>n. product_name (snd x) = Str n \<longrightarrow> product_name (snd y) = Str (truncate_name n)))"

section \<open>Properties\<close>

subsection \<open>Exceptions\<close>

lemma map_err_Inr_iff:
  "(map_err f xs = Inr ys) = list_all2 (\<lambda>x y. f x = Inr y) xs ys"
proof (induction xs arbitrary: ys)
  case Nil
  then show ?case by auto
next
  case (Cons x xs)
  show ?case
    by (cases ys) (auto simp: Cons.IH[symmetric] split: sum.splits)
qed

lemma map_err_Inl_source:
  "map_err f xs = Inl e \<Longrightarrow> \<exists>x \<in> set xs. f x = Inl e"
  by (induction xs) (auto split: sum.splits)


lemma map_err_total:
  "\<forall>x \<in> set xs. \<exists>y. f x = Inr y \<Longrightarrow> \<exists>ys. map_err f xs = Inr ys"
  by (induction xs) (auto split: sum.splits)

subsection \<open>The deletion loops\<close>

lemma loc_distinct:
  "distinct (map fst d) \<Longrightarrow> (x, r) \<in> set d \<Longrightarrow> loc x d = Inr r"
proof (induction d)
  case Nil
  then show ?case by simp
next
  case (Cons a d)
  obtain i q where a: "a = (i, q)" by (cases a)
  show ?case
  proof (cases "i = x")
    case True
    with Cons.prems a have "q = r" and "filter (\<lambda>(j, r). j = x) d = []"
      by (auto simp: filter_empty_conv rev_image_eqI)
    with True a show ?thesis by (simp add: loc_def)
  next
    case False
    with Cons a show ?thesis by (auto simp: loc_def)
  qed
qed

lemma drop_label_present:
  "x \<in> set (map fst d) \<Longrightarrow> drop_label x d = Inr (filter (\<lambda>(i, r). i \<noteq> x) d)"
  by (simp add: drop_label_def)

lemma distinct_fst_filter:
  "distinct (map fst d) \<Longrightarrow> distinct (map fst (filter P d))"
  by (induction d) auto

lemma drop_loop_filter:
  "distinct (map fst d) \<Longrightarrow> distinct xs \<Longrightarrow> set xs \<subseteq> set (map fst d) \<Longrightarrow>
   drop_loop p xs d = Inr (filter (\<lambda>(i, r). \<not> (i \<in> set xs \<and> p r)) d)"
proof (induction xs arbitrary: d)
  case Nil
  then show ?case by simp
next
  case (Cons x xs)
  from Cons.prems obtain r where r: "(x, r) \<in> set d" by auto
  with Cons.prems have l: "loc x d = Inr r" by (simp add: loc_distinct)
  have only: "\<And>q. (x, q) \<in> set d \<Longrightarrow> q = r"
    using Cons.prems(1) r by (meson eq_key_imp_eq_value)
  show ?case
  proof (cases "p r")
    case True
    let ?d' = "filter (\<lambda>(i, r). i \<noteq> x) d"
    have dl: "drop_label x d = Inr ?d'"
      using Cons.prems by (simp add: drop_label_present)
    have "set xs \<subseteq> set (map fst ?d')"
      using Cons.prems by force
    with Cons.prems have "drop_loop p xs ?d' = Inr (filter (\<lambda>(i, r). \<not> (i \<in> set xs \<and> p r)) ?d')"
      by (intro Cons.IH) (simp_all add: distinct_fst_filter)
    moreover have "filter (\<lambda>(i, r). \<not> (i \<in> set xs \<and> p r)) ?d'
        = filter (\<lambda>(i, r). \<not> (i \<in> set (x # xs) \<and> p r)) d"
      unfolding filter_filter using only True by (intro filter_cong) auto
    ultimately show ?thesis using l True dl by simp
  next
    case False
    have "drop_loop p xs d = Inr (filter (\<lambda>(i, r). \<not> (i \<in> set xs \<and> p r)) d)"
      using Cons.prems by (intro Cons.IH) simp_all
    moreover have "filter (\<lambda>(i, r). \<not> (i \<in> set xs \<and> p r)) d
        = filter (\<lambda>(i, r). \<not> (i \<in> set (x # xs) \<and> p r)) d"
      using only False by (intro filter_cong) auto
    ultimately show ?thesis using l False by simp
  qed
qed

lemma drop_loop_index:
  assumes "distinct (map fst d)"
  shows "drop_loop p (map fst d) d = Inr (filter_pass p d)"
proof -
  have "drop_loop p (map fst d) d
      = Inr (filter (\<lambda>(i, r). \<not> (i \<in> set (map fst d) \<and> p r)) d)"
    using assms by (intro drop_loop_filter) simp_all
  moreover have "filter (\<lambda>(i, r). \<not> (i \<in> set (map fst d) \<and> p r)) d = filter_pass p d"
    unfolding filter_pass_def by (rule filter_cong) force+
  ultimately show ?thesis by simp
qed

lemma loc_Inr_filter:
  assumes "loc x d = Inr r"
  shows "filter (\<lambda>(i, r). i = x) d = [(x, r)]"
proof -
  from assms obtain a where a: "filter (\<lambda>(i, r). i = x) d = [(a, r)]"
    unfolding loc_def by (auto split: list.splits)
  then have "(a, r) \<in> set (filter (\<lambda>(i, r). i = x) d)" by simp
  then have "a = x" by simp
  with a show ?thesis by simp
qed

lemma drop_loop_unique:
  "drop_loop p xs d = Inr d' \<Longrightarrow> x \<in> set xs \<Longrightarrow> length (filter (\<lambda>(i, r). i = x) d) \<le> 1"
proof (induction xs arbitrary: d)
  case Nil
  then show ?case by simp
next
  case (Cons y ys)
  from Cons.prems(1) obtain r where l: "loc y d = Inr r"
    by (auto split: sum.splits)
  show ?case
  proof (cases "x = y")
    case True
    with loc_Inr_filter[OF l] show ?thesis by simp
  next
    case False
    with Cons.prems have xs: "x \<in> set ys" by simp
    show ?thesis
    proof (cases "p r")
      case True
      with Cons.prems(1) l have "drop_loop p ys (filter (\<lambda>(i, r). i \<noteq> y) d) = Inr d'"
        by (auto simp: drop_label_def split: sum.splits if_splits)
      from Cons.IH[OF this xs] have "length (filter (\<lambda>(i, r). i = x) (filter (\<lambda>(i, r). i \<noteq> y) d)) \<le> 1" .
      moreover have "filter (\<lambda>(i, r). i = x) (filter (\<lambda>(i, r). i \<noteq> y) d) = filter (\<lambda>(i, r). i = x) d"
        unfolding filter_filter using False by (intro filter_cong) auto
      ultimately show ?thesis by simp
    next
      case False
      with Cons.prems(1) l have "drop_loop p ys d = Inr d'" by simp
      from Cons.IH[OF this xs] show ?thesis .
    qed
  qed
qed

lemma unique_labels_distinct:
  "(\<And>x. x \<in> set (map fst d) \<Longrightarrow> length (filter (\<lambda>(i, r). i = x) d) \<le> 1) \<Longrightarrow> distinct (map fst d)"
proof (induction d)
  case Nil
  then show ?case by simp
next
  case (Cons a d)
  obtain i q where a: "a = (i, q)" by (cases a)
  have "distinct (map fst d)"
  proof (rule Cons.IH)
    fix x assume "x \<in> set (map fst d)"
    then have "length (filter (\<lambda>(i, r). i = x) (a # d)) \<le> 1"
      by (intro Cons.prems) simp
    then show "length (filter (\<lambda>(i, r). i = x) d) \<le> 1"
      by (simp split: if_splits)
  qed
  moreover have "i \<notin> set (map fst d)"
  proof
    assume "i \<in> set (map fst d)"
    then obtain q' where "(i, q') \<in> set d" by auto
    then have "filter (\<lambda>(j, r). j = i) d \<noteq> []"
      by (auto simp: filter_empty_conv)
    then have "length (filter (\<lambda>(j, r). j = i) (a # d)) \<ge> 2"
      using a by (cases "filter (\<lambda>(j, r). j = i) d") auto
    moreover have "length (filter (\<lambda>(j, r). j = i) (a # d)) \<le> 1"
      using a by (intro Cons.prems) simp
    ultimately show False by simp
  qed
  ultimately show ?case using a by simp
qed

lemma drop_loop_Inr_distinct:
  assumes "drop_loop p (map fst d) d = Inr d'"
  shows "distinct (map fst d)"
  using drop_loop_unique[OF assms] by (rule unique_labels_distinct)

lemma drop_loop_Inr_filter_pass:
  assumes "drop_loop p (map fst d) d = Inr d'"
  shows "d' = filter_pass p d"
  using assms drop_loop_index[OF drop_loop_Inr_distinct[OF assms], of p] by simp

subsection \<open>Row-wise assignments and the labels of the frames\<close>

lemma apply_rows_Inr_iff:
  "(apply_rows f d = Inr d') = list_all2 (\<lambda>(i, r) (j, r'). j = i \<and> f r = Inr r') d d'"
  unfolding apply_rows_def map_err_Inr_iff
  by (rule list.rel_cong) (auto split: sum.splits)

lemma apply_rows_labels:
  "apply_rows f d = Inr d' \<Longrightarrow> map fst d' = map fst d"
  unfolding apply_rows_Inr_iff
  by (induction d d' rule: list_all2_induct) auto

lemma apply_rows_Inl:
  "apply_rows f d = Inl e \<Longrightarrow> \<exists>(i, r) \<in> set d. f r = Inl e"
  unfolding apply_rows_def
  by (drule map_err_Inl_source) (force split: sum.splits)


lemma apply_rows_total:
  assumes "\<forall>(i, r) \<in> set d. \<exists>r'. f r = Inr r'"
  shows "\<exists>d'. apply_rows f d = Inr d'"
  unfolding apply_rows_def
  by (rule map_err_total) (use assms in \<open>auto split: sum.splits\<close>)

lemma and_then_Inr:
  "(and_then m f = Inr y) = (\<exists>x. m = Inr x \<and> f x = Inr y)"
  by (cases m) (simp_all add: and_then_def)

lemma read_csv_labels: "map fst (read_csv rows) = [0..<length rows]"
  by (simp add: read_csv_def)

lemma drop_dups_labels:
  "set (map fst (drop_dups seen d)) \<subseteq> set (map fst d)"
  by (induction seen d rule: drop_dups.induct) auto

lemma drop_dups_distinct:
  "distinct (map fst d) \<Longrightarrow> distinct (map fst (drop_dups seen d))"
proof (induction seen d rule: drop_dups.induct)
  case (1 seen)
  then show ?case by simp
next
  case (2 seen i r d)
  then show ?case using drop_dups_labels[of "r # seen" d] by auto
qed

lemma clean_content_labels:
  "clean_content d = Inr d' \<Longrightarrow> map fst d' = map fst d"
  by (auto simp: clean_content_def split: if_splits)

lemma load_and_split_distinct:
  assumes "load_and_split rows = Inr d"
  shows "distinct (map fst d)"
proof -
  from assms obtain d0 where c: "clean_content (drop_duplicates (read_csv rows)) = Inr d0"
    and s: "category_split d0 = Inr d"
    by (auto simp: load_and_split_def and_then_Inr)
  have "distinct (map fst (drop_duplicates (read_csv rows)))"
    unfolding drop_duplicates_def by (rule drop_dups_distinct) (simp add: read_csv_labels)
  with clean_content_labels[OF c] have "distinct (map fst d0)" by simp
  with s show ?thesis
    by (simp add: category_split_def apply_rows_labels)
qed

lemma rating_loop_Inr:
  "rating_loop d = Inr d' \<Longrightarrow> distinct (map fst d) \<and> d' = filter_pass rating_is_bar d"
  unfolding rating_loop_def
  by (simp add: drop_loop_Inr_distinct drop_loop_Inr_filter_pass)

lemma language_loop_Inr:
  "language_loop d = Inr d' \<Longrightarrow> distinct (map fst d) \<and> d' = filter_pass not_english d"
  unfolding language_loop_def
  by (simp add: drop_loop_Inr_distinct drop_loop_Inr_filter_pass)

lemma filter_pass_distinct:
  "distinct (map fst d) \<Longrightarrow> distinct (map fst (filter_pass p d))"
  by (simp add: filter_pass_def distinct_fst_filter)

lemma with_language_distinct:
  assumes "with_language E rows = Inr d"
  shows "distinct (map fst d)"
proof -
  from assms obtain d0 d1 d2 d3 where l: "load_and_split rows = Inr d0"
    and a: "rating_loop d0 = Inr d1" and b: "rating_to_float E d1 = Inr d2"
    and c: "rating_count_repair E d2 = Inr d3" and e: "add_language E d3 = Inr d"
    by (auto simp: with_language_def cleaner_def rating_repair_def and_then_Inr)
  from rating_loop_Inr[OF a] have "distinct (map fst d1)"
    by (simp add: filter_pass_distinct)
  with b have "distinct (map fst d2)"
    by (simp add: rating_to_float_def apply_rows_labels)
  with c have "distinct (map fst d3)"
    by (simp add: rating_count_repair_def apply_rows_labels)
  with e show ?thesis
    by (simp add: add_language_def apply_rows_labels)
qed


text \<open>
  Claim C10. Each of the two loops that drop rows while they run over the index (the
  rating loop of lines 32 to 34 and the language loop of lines 48 to 50) gives what
  a filter pass gives: a frame of exactly the rows that do not match the drop
  predicate, in their order, and no exception. The frames the loops run on are
  those the script has built when it reaches them; their labels are distinct, which
  is what the loops need (\<open>drop_loop_index\<close>).
\<close>

theorem deletion_loops_are_filter_passes:
  "(load_and_split rows = Inr d \<longrightarrow> rating_loop d = Inr (filter_pass rating_is_bar d)) \<and>
   (with_language E rows = Inr d' \<longrightarrow> language_loop d' = Inr (filter_pass not_english d'))"
  unfolding rating_loop_def language_loop_def
  by (simp add: drop_loop_index load_and_split_distinct with_language_distinct)

lemmas sample_defs = sample_rows_def lamp_def cable_def barred_def funda_def sample_row_def
  sample_env_def sample_float_def sample_detect_def sample_scores_def

lemma sample_load_and_split: "load_and_split sample_rows = Inr sample_split"
  by (simp add: sample_defs sample_split_def load_and_split_def read_csv_def drop_duplicates_def
      clean_content_def str_accessor_ok_def category_split_def apply_rows_def split_row_def
      and_then_def py_strip_def strip_chars_def upt_rec)

lemma sample_cleaner: "cleaner sample_env sample_rows = Inr sample_clean"
  unfolding cleaner_def sample_load_and_split
  by (simp add: sample_defs sample_split_def sample_clean_def rating_repair_def rating_loop_def
      loc_def drop_label_def rating_is_bar_def rating_to_float_def apply_rows_def float_row_def
      and_then_def rating_count_repair_def count_row_def fill_value_def fillna_def
      py_remove_def str_int_def)

lemma sample_with_language: "with_language sample_env sample_rows = Inr sample_detected"
  unfolding with_language_def sample_cleaner
  by (simp add: sample_defs sample_clean_def sample_detected_def add_language_def
      apply_rows_def language_row_def and_then_def)

theorem deletion_loops_witness:
  "load_and_split sample_rows = Inr sample_split \<and>
   rating_loop sample_split = Inr (filter_pass rating_is_bar sample_split) \<and>
   map fst (filter_pass rating_is_bar sample_split) = [0, 2, 4] \<and>
   with_language sample_env sample_rows = Inr sample_detected \<and>
   language_loop sample_detected = Inr (filter_pass not_english sample_detected) \<and>
   map fst (filter_pass not_english sample_detected) = [0, 4]"
proof -
  have "map fst (filter_pass rating_is_bar sample_split) = [0, 2, 4]"
    by (simp add: filter_pass_def rating_is_bar_def sample_split_def sample_defs)
  moreover have "map fst (filter_pass not_english sample_detected) = [0, 4]"
    by (simp add: filter_pass_def not_english_def sample_detected_def sample_clean_def
        row.defs lrow.defs)
  ultimately show ?thesis
    using deletion_loops_are_filter_passes[of sample_rows sample_split sample_env sample_detected]
      sample_load_and_split sample_with_language
    by blast
qed

subsection \<open>Rating repair\<close>

lemma float_row_Inr:
  "(float_row E r = Inr r') = (\<exists>f. float_cell E (rating r) = Inr f \<and> r' = r\<lparr>rating := Num f\<rparr>)"
  by (auto simp: float_row_def split: sum.splits)









subsection \<open>Rating count repair\<close>

lemma count_row_Inr:
  "(count_row E z r = Inr r') =
   (\<exists>f. py_float E (py_remove CHR '','' (py_str E (fillna z (rating_count r)))) = Some f \<and>
        r' = r\<lparr>rating_count := Num f\<rparr>)"
  by (auto simp: count_row_def split: option.splits)

lemma fill_value_text:
  assumes "repr_float E (Fin 0) = ''0.0''"
  shows "py_remove CHR '','' (py_str E (fill_value col)) = ''0'' \<or>
         py_remove CHR '','' (py_str E (fill_value col)) = ''0.0''"
  using assms by (simp add: fill_value_def py_remove_def str_int_def)

lemma isna_cases: "isna c = (c = Num NaN)"
  by (cases c rule: isna.cases) simp_all

lemma count_row_counted:
  assumes "py_float E ''0'' = Some (Fin 0)" and "py_float E ''0.0'' = Some (Fin 0)"
    and "py_float E ''1234'' = Some (Fin 1234)" and "repr_float E (Fin 0) = ''0.0''"
    and "count_row E (fill_value col) r = Inr r'"
  shows "counted E (i, r) (i, r')"
proof -
  from assms(5) obtain f
    where f: "py_float E (py_remove CHR '','' (py_str E (fillna (fill_value col) (rating_count r)))) = Some f"
      and r': "r' = r\<lparr>rating_count := Num f\<rparr>"
    by (auto simp: count_row_Inr)
  have "f = Fin 0" if "isna (rating_count r)"
    using that f fill_value_text[OF assms(4), of col] assms(1,2) by (auto simp: fillna_def)
  moreover have "py_float E (filter (\<lambda>c. c \<noteq> CHR '','') s) = Some f" if "rating_count r = Str s" for s
    using that f by (simp add: fillna_def py_remove_def)
  moreover have "f = Fin 1234" if "rating_count r = Str ''1,234''"
    using that f assms(3) by (simp add: fillna_def py_remove_def)
  ultimately show ?thesis using r' by (auto simp: counted_def)
qed

lemma rating_count_repair_Inr:
  assumes "py_float E ''0'' = Some (Fin 0)" and "py_float E ''0.0'' = Some (Fin 0)"
    and "py_float E ''1234'' = Some (Fin 1234)" and "repr_float E (Fin 0) = ''0.0''"
    and "rating_count_repair E d = Inr d'"
  shows "list_all2 (counted E) d d'"
proof -
  let ?z = "fill_value (map (\<lambda>(i, r). rating_count r) d)"
  from assms(5) have "list_all2 (\<lambda>(i, r) (j, r'). j = i \<and> count_row E ?z r = Inr r') d d'"
    by (simp add: rating_count_repair_def apply_rows_Inr_iff)
  then show ?thesis
    by (rule list_all2_mono) (auto intro: count_row_counted[OF assms(1-4)])
qed

lemma rating_count_repair_succeeds:
  assumes "py_float E ''0'' = Some (Fin 0)" and "py_float E ''0.0'' = Some (Fin 0)"
    and "repr_float E (Fin 0) = ''0.0''"
    and "\<forall>(i, r) \<in> set d. isna (rating_count r) \<or>
           (\<exists>s f. rating_count r = Str s \<and> py_float E (filter (\<lambda>c. c \<noteq> CHR '','') s) = Some f)"
  shows "\<exists>d'. rating_count_repair E d = Inr d'"
  unfolding rating_count_repair_def
proof (rule apply_rows_total, clarify)
  fix i r
  assume "(i, r) \<in> set d"
  with assms(4) consider "isna (rating_count r)"
    | s f where "rating_count r = Str s" "py_float E (filter (\<lambda>c. c \<noteq> CHR '','') s) = Some f"
    by blast
  then show "\<exists>r'. count_row E (fill_value (map (\<lambda>(i, r). rating_count r) d)) r = Inr r'"
  proof cases
    case 1
    then show ?thesis
      using fill_value_text[OF assms(3), of "map (\<lambda>(i, r). rating_count r) d"] assms(1,2)
      by (auto simp: count_row_Inr fillna_def)
  next
    case 2
    then show ?thesis by (simp add: count_row_Inr fillna_def py_remove_def)
  qed
qed

text \<open>
  Claim C4. Rating count repair (lines 40 to 42) gives every row a float as its
  rating count and changes nothing else: 0.0 where the count was missing, and for a
  string the float that \<^verbatim>\<open>float\<close> reads in it once its commas are removed, so
  1234.0 for \<^verbatim>\<open>"1,234"\<close>. It returns a frame whenever every count is missing or a
  string that can be read so. What is taken from Python: \<^verbatim>\<open>float\<close> reads the
  numerals 0, 0.0 and 1234 as these numbers, and \<^verbatim>\<open>str(0.0)\<close> is \<^verbatim>\<open>'0.0'\<close>.
\<close>

theorem rating_count_repair_floats:
  assumes "py_float E ''0'' = Some (Fin 0)" and "py_float E ''0.0'' = Some (Fin 0)"
    and "py_float E ''1234'' = Some (Fin 1234)" and "repr_float E (Fin 0) = ''0.0''"
  shows "(rating_count_repair E d = Inr d' \<longrightarrow> list_all2 (counted E) d d') \<and>
         ((\<forall>(i, r) \<in> set d. isna (rating_count r) \<or>
              (\<exists>s f. rating_count r = Str s \<and> py_float E (filter (\<lambda>c. c \<noteq> CHR '','') s) = Some f)) \<longrightarrow>
          (\<exists>d'. rating_count_repair E d = Inr d'))"
  using rating_count_repair_Inr[OF assms, of d d']
    rating_count_repair_succeeds[OF assms(1,2,4), of d]
  by blast

lemma sample_rating_count_repair: "rating_count_repair sample_env sample_rated = Inr sample_clean"
  by (simp add: sample_defs sample_rated_def sample_clean_def apply_rows_def and_then_def
      rating_count_repair_def count_row_def fill_value_def fillna_def py_remove_def str_int_def)

theorem rating_count_repair_witness:
  "rating_count_repair sample_env sample_rated = Inr sample_clean \<and>
   list_all2 (counted sample_env) sample_rated sample_clean \<and>
   map (\<lambda>(i, r). rating_count r) sample_rated = [Num NaN, Str ''24,269'', Str ''1,234''] \<and>
   map (\<lambda>(i, r). rating_count r) sample_clean = [Num (Fin 0), Num (Fin 24269), Num (Fin 1234)]"
proof -
  have "py_float sample_env ''0'' = Some (Fin 0)" "py_float sample_env ''0.0'' = Some (Fin 0)"
    "py_float sample_env ''1234'' = Some (Fin 1234)" "repr_float sample_env (Fin 0) = ''0.0''"
    by (simp_all add: sample_defs str_int_def)
  from rating_count_repair_floats[OF this, of sample_rated sample_clean] sample_rating_count_repair
  show ?thesis
    by (simp add: sample_rated_def sample_clean_def sample_defs)
qed

subsection \<open>Language filter\<close>

lemma language_row_Inr:
  "language_row E r = Inr r' \<Longrightarrow>
   detect_cell E (review_content r') = Inr (language r') \<and> category r' = category r"
  by (auto simp: language_row_def row.defs lrow.defs split: sum.splits)

lemma apply_rows_source:
  assumes "apply_rows f d = Inr d'" and "(i, r') \<in> set d'"
  shows "\<exists>r. (i, r) \<in> set d \<and> f r = Inr r'"
proof -
  from assms(1) have "list_all2 (\<lambda>(i, r) (j, r'). j = i \<and> f r = Inr r') d d'"
    by (simp add: apply_rows_Inr_iff)
  then show ?thesis using assms(2)
    by (induction d d' rule: list_all2_induct) auto
qed

lemma add_language_detected:
  assumes "add_language E d0 = Inr d" and "(i, r) \<in> set d"
  shows "detect_cell E (review_content r) = Inr (language r)"
proof -
  from assms obtain r0 where "language_row E r0 = Inr r"
    unfolding add_language_def by (blast dest: apply_rows_source)
  then show ?thesis by (simp add: language_row_Inr)
qed

lemma reset_index_labels: "map fst (reset_index d) = [0..<length d]"
  by (simp add: reset_index_def)

lemma reset_index_rows: "map snd (reset_index d) = map snd d"
  by (simp add: reset_index_def)

lemma language_filter_Inr:
  assumes "language_filter d = Inr d'"
  shows "d' = reset_index (filter_pass not_english d)"
proof -
  from assms obtain d1 where "language_loop d = Inr d1" and "d' = reset_index d1"
    by (auto simp: language_filter_def and_then_Inr)
  with language_loop_Inr[of d d1] show ?thesis by simp
qed

lemma language_filter_rows:
  assumes "language_filter d = Inr d'" and "(i, r) \<in> set d'"
  shows "language r = ''en'' \<and> (\<exists>j. (j, r) \<in> set d)"
proof -
  from assms(2) have "r \<in> set (map snd d')" by force
  then have "r \<in> set (map snd (filter_pass not_english d))"
    by (simp only: language_filter_Inr[OF assms(1)] reset_index_rows)
  then show ?thesis
    by (auto simp: filter_pass_def not_english_def)
qed

text \<open>
  Claim C5. After the language filter (lines 45 to 52) the language code that the
  detector gave for the text of every row that is left is \<^verbatim>\<open>en\<close>, and the labels of
  the frame are 0, 1, 2, ... in this order. On the frame the script has built by
  line 48 the filter returns a frame.
\<close>

theorem language_filter_keeps_english:
  "(add_language E d0 = Inr d \<and> language_filter d = Inr d' \<longrightarrow>
      (\<forall>(i, r) \<in> set d'. language r = ''en'' \<and> detect_cell E (review_content r) = Inr ''en'') \<and>
      map fst d' = [0..<length d']) \<and>
   (with_language E rows = Inr d \<longrightarrow> (\<exists>d'. language_filter d = Inr d'))"
proof (intro conjI impI)
  assume a: "add_language E d0 = Inr d \<and> language_filter d = Inr d'"
  show "\<forall>(i, r) \<in> set d'. language r = ''en'' \<and> detect_cell E (review_content r) = Inr ''en''"
  proof clarify
    fix i r assume "(i, r) \<in> set d'"
    with a language_filter_rows[of d d' i r] obtain j where "language r = ''en''" "(j, r) \<in> set d"
      by blast
    with a add_language_detected[of E d0 d j r]
    show "language r = ''en'' \<and> detect_cell E (review_content r) = Inr ''en''" by simp
  qed
  from a have "d' = reset_index (filter_pass not_english d)"
    by (simp add: language_filter_Inr)
  then show "map fst d' = [0..<length d']"
    by (simp add: reset_index_def)
next
  assume "with_language E rows = Inr d"
  then have "language_loop d = Inr (filter_pass not_english d)"
    unfolding language_loop_def by (intro drop_loop_index with_language_distinct)
  then show "\<exists>d'. language_filter d = Inr d'"
    by (simp add: language_filter_def and_then_def)
qed

lemma sample_language_filter: "language_filter sample_detected = Inr sample_english"
  by (simp add: language_filter_def language_loop_def and_then_def loc_def drop_label_def
      not_english_def reset_index_def sample_english_def sample_detected_def sample_clean_def
      row.defs lrow.defs upt_rec)

lemma sample_add_language: "add_language sample_env sample_clean = Inr sample_detected"
  using sample_with_language by (simp add: with_language_def sample_cleaner and_then_def)

theorem language_filter_witness:
  "add_language sample_env sample_clean = Inr sample_detected \<and>
   with_language sample_env sample_rows = Inr sample_detected \<and>
   map (\<lambda>(i, r). language r) sample_detected = [''en'', ''es'', ''en''] \<and>
   language_filter sample_detected = Inr sample_english \<and>
   map (\<lambda>(i, r). language r) sample_english = [''en'', ''en''] \<and>
   map (\<lambda>(i, r). detect_cell sample_env (review_content r)) sample_english = [Inr ''en'', Inr ''en''] \<and>
   map fst sample_english = [0..<length sample_english]"
proof -
  have "map (\<lambda>(i, r). language r) sample_detected = [''en'', ''es'', ''en'']"
    by (simp add: sample_detected_def sample_clean_def row.defs lrow.defs)
  moreover have "\<forall>(i, r) \<in> set sample_english.
      language r = ''en'' \<and> detect_cell sample_env (review_content r) = Inr ''en''"
    and "map fst sample_english = [0..<length sample_english]"
    using language_filter_keeps_english[of sample_env sample_clean sample_detected sample_english]
      sample_add_language sample_language_filter by blast+
  ultimately show ?thesis
    using sample_add_language sample_language_filter sample_with_language
    by (simp add: sample_english_def)
qed

subsection \<open>Sentiment labels\<close>

lemma lit_0_05_pos: "0 < lit_0_05"
  by (simp add: lit_0_05_def)

lemma lit_0_05_value: "5 / 100 < lit_0_05 \<and> lit_0_05 < 5 / 100 + 1 / 10 ^ 17"
  by (simp add: lit_0_05_def)

lemma flt_not_fge: "flt x (Fin (- lit_0_05)) \<Longrightarrow> \<not> fge x (Fin lit_0_05)"
  using lit_0_05_pos by (cases x) auto

lemma get_sentiment_Fin:
  "get_sentiment (Fin c) =
     (if lit_0_05 \<le> c then ''Positivo'' else if c < - lit_0_05 then ''Negative'' else ''Neutral'')"
  by (simp add: get_sentiment_def)

lemma label_row_score_row:
  "(and_then (score_row E r) label_row = Inr r') = labelled E (i, r) (i, r')"
  by (auto simp: labelled_def and_then_def score_row_def label_row_def get_sentiment_Fin
      lrow.defs srow.defs split: cell.splits prod.splits)

lemma annotate_Inr:
  assumes "annotate E d = Inr d'"
  shows "list_all2 (labelled E) d d'"
proof -
  from assms obtain d1 where a: "add_scores E d = Inr d1" and b: "label_compound d1 = Inr d'"
    by (auto simp: annotate_def and_then_Inr)
  from a have "list_all2 (\<lambda>(i, r) (j, r'). j = i \<and> score_row E r = Inr r') d d1"
    by (simp add: add_scores_def apply_rows_Inr_iff split: if_splits)
  moreover from b have "list_all2 (\<lambda>(i, r) (j, r'). j = i \<and> label_row r = Inr r') d1 d'"
    by (simp add: label_compound_def apply_rows_Inr_iff)
  ultimately have "list_all2 ((\<lambda>(i, r) (j, r'). j = i \<and> score_row E r = Inr r') OO
      (\<lambda>(i, r) (j, r'). j = i \<and> label_row r = Inr r')) d d'"
    by (auto simp: list.rel_compp)
  then show ?thesis
  proof (rule list_all2_mono)
    fix x :: "nat \<times> lrow" and y :: "nat \<times> srow"
    assume "((\<lambda>(i, r) (j, r'). j = i \<and> score_row E r = Inr r') OO
      (\<lambda>(i, r) (j, r'). j = i \<and> label_row r = Inr r')) x y"
    then have "fst y = fst x \<and> and_then (score_row E (snd x)) label_row = Inr (snd y)"
      by (auto simp: and_then_def)
    then show "labelled E x y"
      using label_row_score_row[of E "snd x" "snd y" "fst x"] by (cases x, cases y) simp
  qed
qed

lemma annotate_succeeds:
  assumes "d \<noteq> []" and "\<forall>(i, r) \<in> set d. \<exists>s. review_content r = Str s"
  shows "\<exists>d'. annotate E d = Inr d'"
proof -
  have "\<exists>d1. apply_rows (score_row E) d = Inr d1"
  proof (rule apply_rows_total, clarify)
    fix i r assume "(i, r) \<in> set d"
    with assms(2) obtain s where "review_content r = Str s" by blast
    then show "\<exists>r'. score_row E r = Inr r'"
      by (simp add: score_row_def split: prod.splits)
  qed
  then obtain d1 where a: "apply_rows (score_row E) d = Inr d1" ..
  have "\<exists>d'. apply_rows label_row d1 = Inr d'"
  proof (rule apply_rows_total, clarify)
    fix i r' assume "(i, r') \<in> set d1"
    with a obtain r where "score_row E r = Inr r'" by (blast dest: apply_rows_source)
    then show "\<exists>r''. label_row r' = Inr r''"
      by (auto simp: score_row_def label_row_def lrow.defs srow.defs split: cell.splits prod.splits)
  qed
  with a assms(1) show ?thesis
    by (simp add: annotate_def add_scores_def label_compound_def and_then_def)
qed

text \<open>
  Claim C2. The sentiment label follows from the compound score by the two fixed
  thresholds, which are the floats that the literals \<^verbatim>\<open>0.05\<close> and \<^verbatim>\<open>-0.05\<close> denote: a
  score that is \<^verbatim>\<open>>= 0.05\<close> gives \<^verbatim>\<open>Positivo\<close>, one that is \<^verbatim>\<open>< -0.05\<close> gives
  \<^verbatim>\<open>Negative\<close>, any other gives \<^verbatim>\<open>Neutral\<close>. Lines 67 to 71 give every review
  the label of the compound score of its text, and they return a frame whenever
  there is a review and every review text is a \<^verbatim>\<open>str\<close>.
\<close>

theorem labels_follow_thresholds:
  "(fge x (Fin lit_0_05) \<longrightarrow> get_sentiment x = ''Positivo'') \<and>
   (flt x (Fin (- lit_0_05)) \<longrightarrow> get_sentiment x = ''Negative'') \<and>
   (\<not> fge x (Fin lit_0_05) \<and> \<not> flt x (Fin (- lit_0_05)) \<longrightarrow> get_sentiment x = ''Neutral'') \<and>
   (annotate E d = Inr d' \<longrightarrow> list_all2 (labelled E) d d') \<and>
   (d \<noteq> [] \<and> (\<forall>(i, r) \<in> set d. \<exists>s. review_content r = Str s) \<longrightarrow>
      (\<exists>d'. annotate E d = Inr d'))"
  using flt_not_fge[of x] annotate_Inr[of E d d'] annotate_succeeds[of d E]
  by (simp add: get_sentiment_def)

lemma sample_annotate: "annotate sample_env sample_english = Inr sample_annotated"
  by (simp add: annotate_def add_scores_def label_compound_def apply_rows_def and_then_def
      score_row_def label_row_def get_sentiment_def lit_0_05_def sample_annotated_def
      sample_english_def sample_detected_def sample_clean_def sample_defs
      row.defs lrow.defs srow.defs)

theorem labels_witness:
  "get_sentiment (Fin (1 / 2)) = ''Positivo'' \<and> get_sentiment (Fin lit_0_05) = ''Positivo'' \<and>
   get_sentiment (Fin (- (1 / 4))) = ''Negative'' \<and> get_sentiment NegInf = ''Negative'' \<and>
   get_sentiment (Fin (- lit_0_05)) = ''Neutral'' \<and> get_sentiment (Fin 0) = ''Neutral'' \<and>
   get_sentiment NaN = ''Neutral'' \<and>
   annotate sample_env sample_english = Inr sample_annotated \<and>
   list_all2 (labelled sample_env) sample_english sample_annotated \<and>
   map (\<lambda>(i, r). compound r) sample_annotated = [Str ''Negative'', Str ''Positivo'']"
proof -
  have a: "get_sentiment (Fin (1 / 2)) = ''Positivo''"
    and b: "list_all2 (labelled sample_env) sample_english sample_annotated"
    using labels_follow_thresholds[of "Fin (1 / 2)" sample_env sample_english sample_annotated]
      sample_annotate
    by (simp_all add: lit_0_05_def)
  have c: "get_sentiment (Fin lit_0_05) = ''Positivo''"
    using labels_follow_thresholds[of "Fin lit_0_05"] by simp
  have d: "get_sentiment (Fin (- (1 / 4))) = ''Negative''"
    using labels_follow_thresholds[of "Fin (- (1 / 4))"] by (simp add: lit_0_05_def)
  have e: "get_sentiment NegInf = ''Negative''"
    using labels_follow_thresholds[of NegInf] by simp
  have f: "get_sentiment (Fin (- lit_0_05)) = ''Neutral''"
    using labels_follow_thresholds[of "Fin (- lit_0_05)"] by (simp add: lit_0_05_def)
  have g: "get_sentiment (Fin 0) = ''Neutral''"
    using labels_follow_thresholds[of "Fin 0"] by (simp add: lit_0_05_def)
  have h: "get_sentiment NaN = ''Neutral''"
    using labels_follow_thresholds[of NaN] by simp
  have "map (\<lambda>(i, r). compound r) sample_annotated = [Str ''Negative'', Str ''Positivo'']"
    by (simp add: sample_annotated_def lrow.defs srow.defs)
  with a b c d e f g h sample_annotate show ?thesis by simp
qed

subsection \<open>The order of line 78\<close>

lemma lex_ge_refl: "lex_ge a a"
  by (cases a) auto

lemma lex_ge_total: "lex_ge a b \<or> lex_ge b a"
  by (cases a; cases b) auto

lemma lex_ge_trans: "lex_ge a b \<Longrightarrow> lex_ge b c \<Longrightarrow> lex_ge a c"
  by (cases a; cases b; cases c) auto

lemma lex_ge_antisym: "lex_ge a b \<Longrightarrow> lex_ge b a \<Longrightarrow> a = b"
  by (cases a; cases b) auto

lemma set_insert_desc: "set (insert_desc x ys) = insert x (set ys)"
  by (induction ys) auto

lemma length_insert_desc: "length (insert_desc x ys) = Suc (length ys)"
  by (induction ys) auto

lemma ranked_lex_ge: "ranked x y = lex_ge (by_key (snd x)) (by_key (snd y))"
  by (auto simp: ranked_def by_key_def)

lemma ranked_iff:
  "ranked x y =
     (positive (snd y) < positive (snd x) \<or>
      (positive (snd y) = positive (snd x) \<and>
        (neutral (snd y) < neutral (snd x) \<or>
         (neutral (snd y) = neutral (snd x) \<and> negative (snd y) \<le> negative (snd x)))))"
  by (auto simp: ranked_def)

lemma sorted_insert_desc:
  "sorted_wrt ranked ys \<Longrightarrow> sorted_wrt ranked (insert_desc x ys)"
proof (induction ys)
  case Nil
  then show ?case by simp
next
  case (Cons y ys)
  show ?case
  proof (cases "lex_ge (by_key (snd x)) (by_key (snd y))")
    case True
    then have "\<forall>z \<in> set ys. ranked x z"
      using Cons.prems by (auto simp: ranked_lex_ge intro: lex_ge_trans)
    with True Cons.prems show ?thesis by (simp add: ranked_lex_ge)
  next
    case False
    then have "ranked y x"
      using lex_ge_total[of "by_key (snd x)" "by_key (snd y)"] by (simp add: ranked_lex_ge)
    with False Cons show ?thesis by (auto simp: set_insert_desc)
  qed
qed

lemma sorted_sort_values: "sorted_wrt ranked (sort_values d)"
  unfolding sort_values_def by (induction d) (simp_all add: sorted_insert_desc)

lemma set_sort_values: "set (sort_values d) = set d"
  unfolding sort_values_def by (induction d) (simp_all add: set_insert_desc)

lemma length_sort_values: "length (sort_values d) = length d"
  unfolding sort_values_def by (induction d) (simp_all add: length_insert_desc)

lemma filter_insert_desc:
  "filter (\<lambda>x. (positive (snd x), neutral (snd x), negative (snd x)) = k) (insert_desc x ys)
     = (if (positive (snd x), neutral (snd x), negative (snd x)) = k
        then x # filter (\<lambda>x. (positive (snd x), neutral (snd x), negative (snd x)) = k) ys
        else filter (\<lambda>x. (positive (snd x), neutral (snd x), negative (snd x)) = k) ys)"
proof (induction ys)
  case Nil
  then show ?case by simp
next
  case (Cons y ys)
  have "lex_ge (by_key (snd x)) (by_key (snd y))"
    if "(positive (snd x), neutral (snd x), negative (snd x))
      = (positive (snd y), neutral (snd y), negative (snd y))"
    using that lex_ge_refl[of "by_key (snd y)"] by (simp add: by_key_def)
  with Cons show ?case by auto
qed

lemma filter_sort_values:
  "filter (\<lambda>x. (positive (snd x), neutral (snd x), negative (snd x)) = k) (sort_values d)
     = filter (\<lambda>x. (positive (snd x), neutral (snd x), negative (snd x)) = k) d"
  unfolding sort_values_def
  by (induction d) (simp_all add: filter_insert_desc)

lemma stable_ranking_sort_values: "stable_ranking d (sort_values d)"
  by (simp add: stable_ranking_def sorted_sort_values filter_sort_values)

lemma sorted_filter_unique:
  assumes refl: "\<And>x. R x x" and antisym: "\<And>x y. R x y \<Longrightarrow> R y x \<Longrightarrow> f x = f y"
  shows "sorted_wrt R ys \<Longrightarrow> sorted_wrt R zs \<Longrightarrow>
    \<forall>k. filter (\<lambda>x. f x = k) ys = filter (\<lambda>x. f x = k) zs \<Longrightarrow> ys = zs"
proof (induction ys arbitrary: zs)
  case Nil
  have "z \<notin> set zs" for z
  proof
    assume "z \<in> set zs"
    then have "z \<in> set (filter (\<lambda>x. f x = f z) zs)" by simp
    moreover from Nil.prems(3) have "filter (\<lambda>x. f x = f z) zs = []" by simp
    ultimately show False by (simp only: list.set empty_iff)
  qed
  then show ?case by (cases zs) auto
next
  case (Cons y ys)
  have eq: "filter (\<lambda>x. f x = k) (y # ys) = filter (\<lambda>x. f x = k) zs" for k
    using Cons.prems(3) by blast
  have a: "filter (\<lambda>x. f x = f y) (y # ys) = y # filter (\<lambda>x. f x = f y) ys" by simp
  then have "filter (\<lambda>x. f x = f y) zs \<noteq> []"
    by (simp only: eq[symmetric]) simp
  then obtain z zs' where zs: "zs = z # zs'" by (cases zs) auto
  have "z \<in> set (filter (\<lambda>x. f x = f z) zs)" using zs by simp
  then have "z \<in> set (filter (\<lambda>x. f x = f z) (y # ys))" by (simp only: eq)
  then have zin: "z = y \<or> z \<in> set ys" by (auto split: if_splits)
  have "y \<in> set (filter (\<lambda>x. f x = f y) (y # ys))" by simp
  then have "y \<in> set (filter (\<lambda>x. f x = f y) zs)" by (simp only: eq)
  then have yin: "y = z \<or> y \<in> set zs'" using zs by (auto split: if_splits)
  have "R y z" using zin Cons.prems(1) refl[of y] by auto
  moreover have "R z y" using yin Cons.prems(2) zs refl[of z] by auto
  ultimately have k: "f y = f z" by (rule antisym)
  then have b: "filter (\<lambda>x. f x = f y) zs = z # filter (\<lambda>x. f x = f y) zs'"
    using zs by simp
  from eq[of "f y"] have c: "y # filter (\<lambda>x. f x = f y) ys = z # filter (\<lambda>x. f x = f y) zs'"
    by (simp only: a b)
  from c have yz: "y = z" by (rule list.inject[THEN iffD1, THEN conjunct1])
  from c have t: "filter (\<lambda>x. f x = f y) ys = filter (\<lambda>x. f x = f y) zs'"
    by (rule list.inject[THEN iffD1, THEN conjunct2])
  have f3: "\<forall>k. filter (\<lambda>x. f x = k) ys = filter (\<lambda>x. f x = k) zs'"
  proof
    fix k
    show "filter (\<lambda>x. f x = k) ys = filter (\<lambda>x. f x = k) zs'"
    proof (cases "f y = k")
      case True
      with t show ?thesis by simp
    next
      case False
      with eq[of k] zs yz show ?thesis by simp
    qed
  qed
  from Cons.prems(1) have s1: "sorted_wrt R ys" by simp
  from Cons.prems(2) zs have s2: "sorted_wrt R zs'" by simp
  from Cons.IH[OF s1 s2 f3] yz zs show ?case by simp
qed

lemma stable_ranking_unique:
  assumes "stable_ranking xs ys" and "stable_ranking xs zs"
  shows "ys = zs"
proof (rule sorted_filter_unique[where R = ranked
      and f = "\<lambda>x. (positive (snd x), neutral (snd x), negative (snd x))"])
  show "ranked x x" for x by (simp add: ranked_def)
  show "(positive (snd x), neutral (snd x), negative (snd x))
      = (positive (snd y), neutral (snd y), negative (snd y))"
    if "ranked x y" "ranked y x" for x y
    using that by (auto simp: ranked_iff)
  from assms show "sorted_wrt ranked ys" "sorted_wrt ranked zs"
    by (simp_all add: stable_ranking_def)
  from assms show "\<forall>k. filter (\<lambda>x. (positive (snd x), neutral (snd x), negative (snd x)) = k) ys
      = filter (\<lambda>x. (positive (snd x), neutral (snd x), negative (snd x)) = k) zs"
    by (simp add: stable_ranking_def)
qed

lemma sorted_head: "sorted_wrt ranked d \<Longrightarrow> sorted_wrt ranked (head n d)"
  unfolding head_def by (metis append_take_drop_id sorted_wrt_append)

lemma df_exploded_reshape:
  "df_exploded (reshape E d) =
     head 20 (sort_values (map (\<lambda>(i, r). (i, rescale_row E r)) (explode d)))"
  by (simp add: reshape_def top20_step_def rescale_step_def explode_step_def)

lemma df_reshape: "df (reshape E d) = d"
  by (simp add: reshape_def top20_step_def rescale_step_def explode_step_def)

lemma render_reads_df_exploded:
  "render E \<lparr>df = d0, df_exploded = df_exploded s\<rparr> = render E s"
  by (simp add: render_def chart1_def chart2_def chart3_def chart4_def chart5_def chart6_def
      add_review_length_def truncate_names_def and_then_def split: sum.splits)

lemma run_Inr:
  "(run E rows = Inr rep) = (\<exists>d. prepare E rows = Inr d \<and> rep = render E (reshape E d))"
  by (auto simp: run_def and_then_Inr)

subsection \<open>Rescaling\<close>

lemma sum_times_100:
  fixes n u p :: real
  assumes "\<bar>n' - n * 100\<bar> \<le> \<delta> * \<bar>n * 100\<bar>" and "\<bar>u' - u * 100\<bar> \<le> \<delta> * \<bar>u * 100\<bar>"
    and "\<bar>p' - p * 100\<bar> \<le> \<delta> * \<bar>p * 100\<bar>" and "\<bar>n + u + p - 1\<bar> \<le> \<epsilon>"
  shows "\<bar>n' + u' + p' - 100\<bar> \<le> 100 * \<epsilon> + \<delta> * (\<bar>n * 100\<bar> + \<bar>u * 100\<bar> + \<bar>p * 100\<bar>)"
proof -
  have "n' + u' + p' - 100 = (n' - n * 100) + (u' - u * 100) + (p' - p * 100) + 100 * (n + u + p - 1)"
    by simp
  then have "\<bar>n' + u' + p' - 100\<bar>
      \<le> \<bar>n' - n * 100\<bar> + \<bar>u' - u * 100\<bar> + \<bar>p' - p * 100\<bar> + 100 * \<bar>n + u + p - 1\<bar>"
    by linarith
  also have "\<dots> \<le> \<delta> * \<bar>n * 100\<bar> + \<delta> * \<bar>u * 100\<bar> + \<delta> * \<bar>p * 100\<bar> + 100 * \<epsilon>"
    using assms by linarith
  finally show ?thesis by (simp add: distrib_left)
qed

lemma rescale_row_rescaled: "rescaled E \<delta> (i, r) (i, rescale_row E r)"
  unfolding rescaled_def rounds_within_def
  by (auto simp: rescale_row_def intro!: sum_times_100)

text \<open>
  Claim C8. The multiplication by 100 of line 75 changes the three score columns of
  the exploded frame only: the frame \<^verbatim>\<open>df\<close> is after it what it was before, and is
  still the frame the reshaping started from when the reshaping is over. Where the
  three scores of a row added up to about 1, they add up to about 100 afterwards:
  within 100 times the distance from 1, and the rounding of the three float
  products.
\<close>

theorem rescale_only_exploded:
  "df (rescale_step E s) = df s \<and> df (reshape E d) = d \<and>
   list_all2 (rescaled E \<delta>) (df_exploded s) (df_exploded (rescale_step E s))"
proof -
  have "list_all2 (rescaled E \<delta>) xs (map (\<lambda>(i, r). (i, rescale_row E r)) xs)" for xs
    by (induction xs) (auto simp: rescale_row_rescaled)
  then show ?thesis
    by (simp add: rescale_step_def df_reshape)
qed

theorem rescale_witness:
  "df (rescale_step sample_env (explode_step sample_annotated)) = sample_annotated \<and>
   list_all2 (rescaled sample_env 0) (explode sample_annotated)
     (df_exploded (rescale_step sample_env (explode_step sample_annotated))) \<and>
   (\<forall>x. rounds_within sample_env 0 x) \<and>
   map (\<lambda>(i, r). negative r + neutral r + positive r) (explode sample_annotated) = [1, 1, 1, 1, 1] \<and>
   map (\<lambda>(i, r). negative r + neutral r + positive r)
     (df_exploded (rescale_step sample_env (explode_step sample_annotated)))
     = [100, 100, 100, 100, 100] \<and>
   map (\<lambda>(i, r). negative r + neutral r + positive r) sample_annotated = [1, 1]"
proof -
  have "\<forall>x. rounds_within sample_env 0 x"
    by (simp add: rounds_within_def sample_env_def)
  with rescale_only_exploded[of sample_env "explode_step sample_annotated" sample_annotated 0]
  show ?thesis
    by (simp add: explode_step_def rescale_step_def rescale_row_def explode_def
        sample_annotated_def sample_english_def sample_detected_def sample_clean_def
        sample_env_def row.defs lrow.defs srow.defs)
qed

subsection \<open>The top 20\<close>

lemma explode_row_list:
  "category r = Lst cs \<Longrightarrow> cs \<noteq> [] \<Longrightarrow>
   explode_row (i, r) = map (\<lambda>c. (i, r\<lparr>category := Str c\<rparr>)) cs"
  by (cases cs) simp_all

lemma many_rescaled:
  "map (\<lambda>(i, r). (i, rescale_row sample_env r)) (explode many_categories) =
     map (\<lambda>c. (0, graded (Str [c]) 25 75 0)) ''abcdefghijkl'' @
     map (\<lambda>c. (1, graded (Str [c]) 0 50 50)) ''xy'' @
     map (\<lambda>c. (2, graded (Str [c]) 0 100 0)) ''mnopqrstu'' @
     [(3, graded (Str ''z'') (251 / 10) 75 0)]"
  by (simp add: explode_def many_categories_def graded_def rescale_row_def sample_env_def)

lemma many_sorted:
  "sort_values (map (\<lambda>(i, r). (i, rescale_row sample_env r)) (explode many_categories))
     = many_ranked"
  unfolding many_rescaled
  by (simp add: sort_values_def by_key_def many_ranked_def graded_def)

lemma many_keys:
  "map (\<lambda>(i, r). (i, category r, positive r, neutral r, negative r)) many_ranked =
     map (\<lambda>c. (1, Str [c], 50, 50, 0)) ''xy'' @
     map (\<lambda>c. (2, Str [c], 0, 100, 0)) ''mnopqrstu'' @
     [(3, Str ''z'', 0, 75, 251 / 10)] @
     map (\<lambda>c. (0, Str [c], 0, 75, 25)) ''abcdefghijkl''"
  by (simp add: many_ranked_def graded_def)

text \<open>
  Claim C7. Line 78 leaves in \<^verbatim>\<open>df_exploded\<close> a slice of at most 20 rows, 20 of them
  when the exploded frame has as many. The slice is sorted: of two rows the earlier
  has the larger \<^verbatim>\<open>positive\<close>, or the same and the larger \<^verbatim>\<open>neutral\<close>, or the same
  two and a \<^verbatim>\<open>negative\<close> that is not smaller. It is the top of the ranking: the
  rescaled exploded frame has a stable ranking, every stable ranking of it starts
  with the slice, and the slice is its first 20 rows. The six charts are computed
  from this slice: the report is the same whatever \<^verbatim>\<open>df\<close> holds, and the report of a
  run is the one rendered from the slice.
\<close>

theorem top20_slice_sorted:
  "length (df_exploded (reshape E d)) \<le> 20 \<and>
   length (df_exploded (reshape E d)) = min 20 (length (explode d)) \<and>
   sorted_wrt ranked (df_exploded (reshape E d)) \<and>
   set (df_exploded (reshape E d)) \<subseteq> set (map (\<lambda>(i, r). (i, rescale_row E r)) (explode d)) \<and>
   (\<exists>ys. stable_ranking (map (\<lambda>(i, r). (i, rescale_row E r)) (explode d)) ys \<and>
         df_exploded (reshape E d) = take 20 ys) \<and>
   (\<forall>ys. stable_ranking (map (\<lambda>(i, r). (i, rescale_row E r)) (explode d)) ys \<longrightarrow>
         df_exploded (reshape E d) = take 20 ys) \<and>
   render E \<lparr>df = d0, df_exploded = df_exploded (reshape E d)\<rparr> = render E (reshape E d) \<and>
   (run E rows = Inr rep \<longrightarrow> (\<exists>d. prepare E rows = Inr d \<and> rep = render E (reshape E d)))"
proof -
  let ?xs = "map (\<lambda>(i, r). (i, rescale_row E r)) (explode d)"
  have "length (df_exploded (reshape E d)) = min 20 (length (explode d))"
    by (simp add: df_exploded_reshape head_def length_sort_values)
  moreover have "sorted_wrt ranked (df_exploded (reshape E d))"
    unfolding df_exploded_reshape by (intro sorted_head sorted_sort_values)
  moreover have "set (df_exploded (reshape E d)) \<subseteq> set ?xs"
    unfolding df_exploded_reshape head_def
    using set_take_subset[of 20 "sort_values ?xs"]
    by (simp add: set_sort_values)
  moreover have top: "df_exploded (reshape E d) = take 20 ys" if "stable_ranking ?xs ys" for ys
  proof -
    from that stable_ranking_sort_values[of ?xs] have "ys = sort_values ?xs"
      by (rule stable_ranking_unique)
    then show ?thesis by (simp add: df_exploded_reshape head_def)
  qed
  moreover have "\<exists>ys. stable_ranking ?xs ys \<and> df_exploded (reshape E d) = take 20 ys"
    using top[OF stable_ranking_sort_values] stable_ranking_sort_values by blast
  ultimately show ?thesis
    by (simp add: render_reads_df_exploded run_Inr)
qed

lemma sample_prepare: "prepare sample_env sample_rows = Inr sample_annotated"
  by (simp add: prepare_def sample_with_language sample_language_filter sample_annotate
      and_then_def)

lemma sample_reshape: "df_exploded (reshape sample_env sample_annotated) = sample_slice"
  by (simp add: df_exploded_reshape head_def sort_values_def by_key_def rescale_row_def
      explode_def sample_slice_def sample_annotated_def sample_english_def sample_detected_def
      sample_clean_def sample_env_def row.defs lrow.defs srow.defs)

theorem top20_witness:
  "df_exploded (reshape sample_env sample_annotated) = sample_slice \<and>
   map (\<lambda>(i, r). by_key r) sample_slice
     = [(50, 50, 0), (50, 50, 0), (0, 75, 25), (0, 75, 25), (0, 75, 25)] \<and>
   sorted_wrt ranked sample_slice \<and> length sample_slice \<le> 20 \<and>
   map (\<lambda>(i, r). (i, category r, positive r, neutral r, negative r))
       (map (\<lambda>(i, r). (i, rescale_row sample_env r)) (explode many_categories)) =
     map (\<lambda>c. (0, Str [c], 0, 75, 25)) ''abcdefghijkl'' @
     map (\<lambda>c. (1, Str [c], 50, 50, 0)) ''xy'' @
     map (\<lambda>c. (2, Str [c], 0, 100, 0)) ''mnopqrstu'' @
     [(3, Str ''z'', 0, 75, 251 / 10)] \<and>
   stable_ranking (map (\<lambda>(i, r). (i, rescale_row sample_env r)) (explode many_categories))
     many_ranked \<and>
   df_exploded (reshape sample_env many_categories) = take 20 many_ranked \<and>
   map (\<lambda>(i, r). (i, category r, positive r, neutral r, negative r))
       (df_exploded (reshape sample_env many_categories)) =
     map (\<lambda>c. (1, Str [c], 50, 50, 0)) ''xy'' @
     map (\<lambda>c. (2, Str [c], 0, 100, 0)) ''mnopqrstu'' @
     [(3, Str ''z'', 0, 75, 251 / 10)] @
     map (\<lambda>c. (0, Str [c], 0, 75, 25)) ''abcdefgh'' \<and>
   length (explode many_categories) = 24 \<and>
   length (df_exploded (reshape sample_env many_categories)) = 20 \<and>
   run sample_env sample_rows = Inr (render sample_env (reshape sample_env sample_annotated))"
proof -
  let ?xs = "map (\<lambda>(i, r). (i, rescale_row sample_env r)) (explode many_categories)"
  note slice = sample_reshape
  have keys: "map (\<lambda>(i, r). by_key r) sample_slice
     = [(50, 50, 0), (50, 50, 0), (0, 75, 25), (0, 75, 25), (0, 75, 25)]"
    by (simp add: sample_slice_def by_key_def)
  have report: "run sample_env sample_rows
      = Inr (render sample_env (reshape sample_env sample_annotated))"
    by (simp add: run_def sample_prepare and_then_def)
  have before: "map (\<lambda>(i, r). (i, category r, positive r, neutral r, negative r)) ?xs =
     map (\<lambda>c. (0, Str [c], 0, 75, 25)) ''abcdefghijkl'' @
     map (\<lambda>c. (1, Str [c], 50, 50, 0)) ''xy'' @
     map (\<lambda>c. (2, Str [c], 0, 100, 0)) ''mnopqrstu'' @
     [(3, Str ''z'', 0, 75, 251 / 10)]"
    unfolding many_rescaled by (simp add: graded_def)
  have ranking: "stable_ranking ?xs many_ranked"
    using stable_ranking_sort_values[of ?xs] by (simp only: many_sorted)
  have len: "length (explode many_categories) = 24"
    using arg_cong[OF many_rescaled, of length] by simp
  have cut: "df_exploded (reshape sample_env many_categories) = take 20 many_ranked"
    using top20_slice_sorted[of sample_env many_categories] ranking by blast
  have after: "map (\<lambda>(i, r). (i, category r, positive r, neutral r, negative r))
       (df_exploded (reshape sample_env many_categories)) =
     map (\<lambda>c. (1, Str [c], 50, 50, 0)) ''xy'' @
     map (\<lambda>c. (2, Str [c], 0, 100, 0)) ''mnopqrstu'' @
     [(3, Str ''z'', 0, 75, 251 / 10)] @
     map (\<lambda>c. (0, Str [c], 0, 75, 25)) ''abcdefgh''"
    unfolding cut take_map[symmetric] many_keys by simp
  have len20: "length (df_exploded (reshape sample_env many_categories)) = 20"
    using top20_slice_sorted[of sample_env many_categories] len by simp
  have sorted: "sorted_wrt ranked sample_slice" and short: "length sample_slice \<le> 20"
    using top20_slice_sorted[of sample_env sample_annotated] by (simp_all add: sample_reshape)
  show ?thesis
    by (intro conjI) (fact slice keys report before ranking len cut after len20 sorted short)+
qed

subsection \<open>Explode\<close>

lemma list_all2_source:
  "list_all2 P xs ys \<Longrightarrow> y \<in> set ys \<Longrightarrow> \<exists>x \<in> set xs. P x y"
  by (induction xs ys rule: list_all2_induct) auto

lemma py_split_nonempty: "py_split sep s \<noteq> []"
  by (induction s) (auto split: list.splits)

lemma split_row_Inr: "split_row r = Inr r' \<Longrightarrow> split_category r'"
  by (cases "category r") (auto simp: split_row_def split_category_def)

lemma float_row_category: "float_row E r = Inr r' \<Longrightarrow> category r' = category r"
  by (auto simp: float_row_Inr)

lemma count_row_category: "count_row E z r = Inr r' \<Longrightarrow> category r' = category r"
  by (auto simp: count_row_Inr)

lemma load_and_split_category:
  assumes "load_and_split rows = Inr d" and "(i, r) \<in> set d"
  shows "split_category r"
proof -
  from assms(1) obtain d0 where "category_split d0 = Inr d"
    by (auto simp: load_and_split_def and_then_Inr)
  with assms(2) obtain r0 where "split_row r0 = Inr r"
    unfolding category_split_def by (blast dest: apply_rows_source)
  then show ?thesis by (rule split_row_Inr)
qed

lemma cleaner_category:
  assumes "cleaner E rows = Inr d" and "(i, r) \<in> set d"
  shows "split_category r"
proof -
  from assms(1) obtain d0 d1 d2 where l: "load_and_split rows = Inr d0"
    and a: "rating_loop d0 = Inr d1" and b: "rating_to_float E d1 = Inr d2"
    and c: "rating_count_repair E d2 = Inr d"
    by (auto simp: cleaner_def rating_repair_def and_then_Inr)
  from c assms(2) obtain r2 where r2: "(i, r2) \<in> set d2" "category r = category r2"
    unfolding rating_count_repair_def by (blast dest: apply_rows_source count_row_category)
  with b obtain r1 where r1: "(i, r1) \<in> set d1" "category r2 = category r1"
    unfolding rating_to_float_def by (blast dest: apply_rows_source float_row_category)
  with rating_loop_Inr[OF a] have "(i, r1) \<in> set d0"
    by (simp add: filter_pass_def)
  with l have "split_category r1" by (rule load_and_split_category)
  with r1 r2 show ?thesis by (simp add: split_category_def)
qed

lemma prepare_category:
  assumes "prepare E rows = Inr d" and "(i, r) \<in> set d"
  shows "split_category r"
proof -
  from assms(1) obtain d0 d1 d2 where c: "cleaner E rows = Inr d0"
    and a: "add_language E d0 = Inr d1" and f: "language_filter d1 = Inr d2"
    and n: "annotate E d2 = Inr d"
    by (auto simp: prepare_def with_language_def and_then_Inr)
  from annotate_Inr[OF n] assms(2) obtain x where x: "x \<in> set d2" "labelled E x (i, r)"
    by (blast dest: list_all2_source)
  then have r2: "category r = category (snd x)"
    by (auto simp: labelled_def lrow.defs srow.defs)
  from x f obtain j where "(j, snd x) \<in> set d1"
    using language_filter_rows[of d1 d2 "fst x" "snd x"] by auto
  with a obtain r0 where "(j, r0) \<in> set d0" "language_row E r0 = Inr (snd x)"
    unfolding add_language_def by (blast dest: apply_rows_source)
  with c r2 cleaner_category[of E rows d0 j r0] show ?thesis
    by (simp add: split_category_def language_row_Inr)
qed

lemma explode_lists:
  assumes "\<forall>(i, r) \<in> set d. \<exists>cs. category r = Lst cs \<and> cs \<noteq> []"
  shows "explode d = concat (map (\<lambda>(i, r). map (\<lambda>c. (i, r\<lparr>category := Str c\<rparr>)) (category_list r)) d)"
proof -
  have "explode_row x = (\<lambda>(i, r). map (\<lambda>c. (i, r\<lparr>category := Str c\<rparr>)) (category_list r)) x"
    if "x \<in> set d" for x
  proof -
    obtain i r where x: "x = (i, r)" by (cases x)
    with that assms obtain cs where "category r = Lst cs" "cs \<noteq> []" by blast
    with x show ?thesis
      by (simp add: explode_row_list category_list_def del: explode_row.simps)
  qed
  then show ?thesis
    unfolding explode_def by (simp cong: map_cong)
qed

lemma length_concat_rows:
  "length (concat (map (\<lambda>(i, r). map (g i r) (h r)) d)) = sum_list (map (\<lambda>(i, r). length (h r)) d)"
  by (induction d) auto

text \<open>
  Claim C6. The frame that line 74 explodes has in every category cell the list that
  line 29 made, which is never empty. Its exploded frame holds, for every row in
  order and for every category of its list in order, the row with that one
  category in the category cell and every other field as it was, under the label
  of the row. So the number of exploded rows is the sum of the lengths of the
  category lists.
\<close>

theorem explode_one_row_per_category:
  "prepare E rows = Inr d \<longrightarrow>
     (\<forall>(i, r) \<in> set d. split_category r \<and> category_list r \<noteq> []) \<and>
     explode d = concat (map (\<lambda>(i, r). map (\<lambda>c. (i, r\<lparr>category := Str c\<rparr>)) (category_list r)) d) \<and>
     length (explode d) = sum_list (map (\<lambda>(i, r). length (category_list r)) d) \<and>
     df_exploded (explode_step d) = explode d"
proof
  assume p: "prepare E rows = Inr d"
  have a: "\<forall>(i, r) \<in> set d. split_category r \<and> category_list r \<noteq> []"
  proof clarify
    fix i r assume "(i, r) \<in> set d"
    with p have s: "split_category r" by (rule prepare_category)
    then obtain t where "category r = Lst (py_split CHR ''|'' t)"
      by (auto simp: split_category_def)
    then have "category_list r \<noteq> []"
      by (simp add: category_list_def py_split_nonempty)
    with s show "split_category r \<and> category_list r \<noteq> []" ..
  qed
  then have "\<forall>(i, r) \<in> set d. \<exists>cs. category r = Lst cs \<and> cs \<noteq> []"
    by (fastforce simp: split_category_def category_list_def)
  then have b: "explode d
      = concat (map (\<lambda>(i, r). map (\<lambda>c. (i, r\<lparr>category := Str c\<rparr>)) (category_list r)) d)"
    by (rule explode_lists)
  have "length (explode d) = sum_list (map (\<lambda>(i, r). length (category_list r)) d)"
    unfolding b by (rule length_concat_rows)
  with a b show "(\<forall>(i, r) \<in> set d. split_category r \<and> category_list r \<noteq> []) \<and>
     explode d = concat (map (\<lambda>(i, r). map (\<lambda>c. (i, r\<lparr>category := Str c\<rparr>)) (category_list r)) d) \<and>
     length (explode d) = sum_list (map (\<lambda>(i, r). length (category_list r)) d) \<and>
     df_exploded (explode_step d) = explode d"
    by (simp add: explode_step_def)
qed

theorem explode_witness:
  "prepare sample_env sample_rows = Inr sample_annotated \<and>
   map (\<lambda>(i, r). category_list r) sample_annotated
     = [[''Home'', ''Lighting'', ''Lamps''], [''Computers'', ''Cables'']] \<and>
   length (explode sample_annotated) = 5 \<and>
   explode sample_annotated
     = [(0, (snd (sample_annotated ! 0))\<lparr>category := Str ''Home''\<rparr>),
        (0, (snd (sample_annotated ! 0))\<lparr>category := Str ''Lighting''\<rparr>),
        (0, (snd (sample_annotated ! 0))\<lparr>category := Str ''Lamps''\<rparr>),
        (1, (snd (sample_annotated ! 1))\<lparr>category := Str ''Computers''\<rparr>),
        (1, (snd (sample_annotated ! 1))\<lparr>category := Str ''Cables''\<rparr>)]"
proof -
  have c: "map (\<lambda>(i, r). category_list r) sample_annotated
     = [[''Home'', ''Lighting'', ''Lamps''], [''Computers'', ''Cables'']]"
    by (simp add: category_list_def sample_annotated_def sample_english_def sample_detected_def
        sample_clean_def row.defs lrow.defs srow.defs)
  have e: "explode sample_annotated
      = concat (map (\<lambda>(i, r). map (\<lambda>c. (i, r\<lparr>category := Str c\<rparr>)) (category_list r)) sample_annotated)"
    and l: "length (explode sample_annotated)
      = sum_list (map (\<lambda>(i, r). length (category_list r)) sample_annotated)"
    using explode_one_row_per_category[of sample_env sample_rows sample_annotated] sample_prepare
    by blast+
  have "sum_list (map (\<lambda>(i, r). length (category_list r)) sample_annotated) = 5"
    using arg_cong[OF c, of "\<lambda>xs. sum_list (map length xs)"] by (simp add: comp_def case_prod_unfold)
  moreover have "explode sample_annotated
     = [(0, (snd (sample_annotated ! 0))\<lparr>category := Str ''Home''\<rparr>),
        (0, (snd (sample_annotated ! 0))\<lparr>category := Str ''Lighting''\<rparr>),
        (0, (snd (sample_annotated ! 0))\<lparr>category := Str ''Lamps''\<rparr>),
        (1, (snd (sample_annotated ! 1))\<lparr>category := Str ''Computers''\<rparr>),
        (1, (snd (sample_annotated ! 1))\<lparr>category := Str ''Cables''\<rparr>)]"
    unfolding e
    by (simp add: category_list_def sample_annotated_def sample_english_def sample_detected_def
        sample_clean_def row.defs lrow.defs srow.defs)
  ultimately show ?thesis using c l sample_prepare by simp
qed

subsection \<open>Product names\<close>

lemma truncate_row_Inr:
  "truncate_row r = Inr r' \<Longrightarrow> truncated (i, r) (i, r')"
  by (auto simp: truncate_row_def truncated_def split: sum.splits)

lemma truncate_names_Inr:
  assumes "truncate_names s = Inr s'"
  shows "df s' = df s \<and> list_all2 truncated (df_exploded s) (df_exploded s')"
proof -
  from assms obtain d where a: "apply_rows truncate_row (df_exploded s) = Inr d"
    and s': "s' = s\<lparr>df_exploded := d\<rparr>"
    by (auto simp: truncate_names_def and_then_Inr)
  from a have "list_all2 (\<lambda>(i, r) (j, r'). j = i \<and> truncate_row r = Inr r') (df_exploded s) d"
    by (simp add: apply_rows_Inr_iff)
  then have "list_all2 truncated (df_exploded s) d"
    by (rule list_all2_mono) (auto simp: truncate_row_Inr)
  with s' show ?thesis by simp
qed

lemma truncate_names_succeeds:
  assumes "\<forall>(i, r) \<in> set (df_exploded s). \<exists>n. product_name r = Str n"
  shows "\<exists>s'. truncate_names s = Inr s'"
proof -
  have "\<exists>d. apply_rows truncate_row (df_exploded s) = Inr d"
  proof (rule apply_rows_total, clarify)
    fix i r assume "(i, r) \<in> set (df_exploded s)"
    with assms obtain n where "product_name r = Str n" by blast
    then show "\<exists>r'. truncate_row r = Inr r'" by (simp add: truncate_row_def)
  qed
  then show ?thesis by (auto simp: truncate_names_def and_then_def)
qed

text \<open>
  Claim C9. The truncation of line 195, which runs before chart 6 is drawn, maps a
  product name of more than 10 characters to its first 10 characters followed by
  three dots, and leaves a name of 10 characters or fewer as it is. Line 195 does so
  for the product name of every row of \<^verbatim>\<open>df_exploded\<close> and changes nothing else; it
  returns a state whenever every product name is a \<^verbatim>\<open>str\<close>.
\<close>

theorem truncate_name_first_ten:
  "(length x > 10 \<longrightarrow> truncate_name x = take 10 x @ ''...'' \<and> length (truncate_name x) = 13) \<and>
   (length x \<le> 10 \<longrightarrow> truncate_name x = x) \<and>
   (truncate_names s = Inr s' \<longrightarrow>
      df s' = df s \<and> list_all2 truncated (df_exploded s) (df_exploded s')) \<and>
   ((\<forall>(i, r) \<in> set (df_exploded s). \<exists>n. product_name r = Str n) \<longrightarrow>
      (\<exists>s'. truncate_names s = Inr s'))"
  using truncate_names_Inr[of s s'] truncate_names_succeeds[of s]
  by (simp add: truncate_name_def)

lemma sample_slice_names:
  "map (\<lambda>(i, r). product_name r) sample_slice
     = map Str [''Braided USB Cable'', ''Braided USB Cable'', ''Lamp'', ''Lamp'', ''Lamp'']"
  by (simp add: sample_slice_def sample_annotated_def
      sample_english_def sample_detected_def sample_clean_def sample_defs
      row.defs lrow.defs srow.defs)

lemma add_review_length_names:
  "map (\<lambda>(i, r). product_name r) (df_exploded (add_review_length E s))
     = map (\<lambda>(i, r). product_name r) (df_exploded s)"
  by (simp add: add_review_length_def srow.defs crow.defs case_prod_unfold)

lemma names_are_str:
  assumes "map (\<lambda>(i, r). product_name r) d = map Str ns"
  shows "\<forall>(i, r) \<in> set d. \<exists>n. product_name r = Str n"
proof clarify
  fix i r assume "(i, r) \<in> set d"
  then have "product_name r \<in> set (map (\<lambda>(i, r). product_name r) d)" by force
  with assms have "product_name r \<in> set (map Str ns)" by simp
  then show "\<exists>n. product_name r = Str n" by auto
qed

lemma truncated_names:
  "list_all2 truncated d d' \<Longrightarrow> map (\<lambda>(i, r). product_name r) d = map Str ns \<Longrightarrow>
   map (\<lambda>(i, r). product_name r) d' = map (\<lambda>n. Str (truncate_name n)) ns"
proof (induction d d' arbitrary: ns rule: list_all2_induct)
  case Nil
  then show ?case by simp
next
  case (Cons x xs y ys)
  from Cons.prems obtain n ns' where ns: "ns = n # ns'"
    and x: "product_name (snd x) = Str n"
    and xs: "map (\<lambda>(i, r). product_name r) xs = map Str ns'"
    by (cases ns) (auto simp: case_prod_unfold)
  from Cons.hyps(1) x have "product_name (snd y) = Str (truncate_name n)"
    by (simp add: truncated_def)
  with Cons.IH[OF xs] ns show ?case
    by (simp add: case_prod_unfold)
qed

lemma sample_state_names:
  "map (\<lambda>(i, r). product_name r) (df_exploded sample_state)
     = map Str [''Braided USB Cable'', ''Braided USB Cable'', ''Lamp'', ''Lamp'', ''Lamp'']"
  unfolding sample_state_def add_review_length_names by (simp add: sample_slice_names)

theorem truncate_name_witness:
  "truncate_name ''Braided USB Cable'' = ''Braided US...'' \<and>
   length (truncate_name ''Braided USB Cable'') = 13 \<and>
   truncate_name ''Lamp'' = ''Lamp'' \<and>
   map (\<lambda>(i, r). product_name r) (df_exploded sample_state)
     = map Str [''Braided USB Cable'', ''Braided USB Cable'', ''Lamp'', ''Lamp'', ''Lamp''] \<and>
   (\<exists>s'. truncate_names sample_state = Inr s' \<and>
      list_all2 truncated (df_exploded sample_state) (df_exploded s') \<and>
      map (\<lambda>(i, r). product_name r) (df_exploded s')
        = map Str [''Braided US...'', ''Braided US...'', ''Lamp'', ''Lamp'', ''Lamp''])"
proof -
  have a: "truncate_name ''Braided USB Cable'' = ''Braided US...''"
    and b: "length (truncate_name ''Braided USB Cable'') = 13"
    using truncate_name_first_ten[of "''Braided USB Cable''"] by simp_all
  have c: "truncate_name ''Lamp'' = ''Lamp''"
    using truncate_name_first_ten[of "''Lamp''"] by simp
  have "\<forall>(i, r) \<in> set (df_exploded sample_state). \<exists>n. product_name r = Str n"
    using sample_state_names by (rule names_are_str)
  then obtain s' where s': "truncate_names sample_state = Inr s'"
    using truncate_name_first_ten[of _ sample_state] by blast
  then have t: "list_all2 truncated (df_exploded sample_state) (df_exploded s')"
    using truncate_name_first_ten[of _ sample_state s'] by blast
  from truncated_names[OF t sample_state_names]
  have "map (\<lambda>(i, r). product_name r) (df_exploded s')
        = map Str [''Braided US...'', ''Braided US...'', ''Lamp'', ''Lamp'', ''Lamp'']"
    by (simp add: a c)
  with a b c s' t sample_state_names show ?thesis by blast
qed

subsection \<open>Chart 4\<close>

lemma explode_row_source:
  "(j, r') \<in> set (explode_row (i, r)) \<Longrightarrow> j = i \<and> (\<exists>c. r' = r\<lparr>category := c\<rparr>)"
proof (cases "category r")
  case (Lst cs)
  assume "(j, r') \<in> set (explode_row (i, r))"
  with Lst show ?thesis by (cases cs) auto
next
  case (Str s)
  assume "(j, r') \<in> set (explode_row (i, r))"
  with Str have "j = i \<and> r' = r\<lparr>category := category r\<rparr>" by simp
  then show ?thesis by blast
next
  case (Num f)
  assume "(j, r') \<in> set (explode_row (i, r))"
  with Num have "j = i \<and> r' = r\<lparr>category := category r\<rparr>" by simp
  then show ?thesis by blast
next
  case (PyInt n)
  assume "(j, r') \<in> set (explode_row (i, r))"
  with PyInt have "j = i \<and> r' = r\<lparr>category := category r\<rparr>" by simp
  then show ?thesis by blast
qed

lemma explode_compound:
  assumes "(j, r') \<in> set (explode d)"
  shows "\<exists>r. (j, r) \<in> set d \<and> compound r' = compound r"
proof -
  from assms obtain i r where x: "(i, r) \<in> set d" and "(j, r') \<in> set (explode_row (i, r))"
    by (auto simp: explode_def simp del: explode_row.simps)
  then obtain c where "j = i" and "r' = r\<lparr>category := c\<rparr>"
    by (blast dest: explode_row_source)
  with x show ?thesis by auto
qed

lemma slice_compound:
  assumes "(j, r') \<in> set (df_exploded (reshape E d))"
  shows "\<exists>r. (j, r) \<in> set d \<and> compound r' = compound r"
proof -
  from assms have "(j, r') \<in> set (map (\<lambda>(i, r). (i, rescale_row E r)) (explode d))"
    unfolding df_exploded_reshape head_def
    by (auto dest: in_set_takeD simp: set_sort_values)
  then obtain r1 where "(j, r1) \<in> set (explode d)" and "r' = rescale_row E r1"
    by auto
  then show ?thesis
    using explode_compound[of j r1 d] by (auto simp: rescale_row_def)
qed

lemma prepare_compound:
  assumes "prepare E rows = Inr d" and "(i, r) \<in> set d"
  shows "compound r \<in> label_cells"
proof -
  from assms(1) obtain d2 where "annotate E d2 = Inr d"
    by (auto simp: prepare_def and_then_Inr)
  from annotate_Inr[OF this] assms(2) obtain x where "labelled E x (i, r)"
    by (blast dest: list_all2_source)
  then show ?thesis
    by (auto simp: labelled_def label_cells_def lrow.defs srow.defs split: if_splits)
qed

lemma chart4_render:
  "longitud_vs_sentimiento (render E s)
     = map (\<lambda>(i, r). (int (length (py_str E (review_content r))), compound r, compound r))
         (df_exploded s)"
  by (simp add: render_def chart4_def add_review_length_def srow.defs crow.defs case_prod_unfold)

lemma sample_run:
  "run sample_env sample_rows = Inr (render sample_env (reshape sample_env sample_annotated))"
  by (simp add: run_def sample_prepare and_then_def)

lemma sample_chart4:
  "longitud_vs_sentimiento (render sample_env (reshape sample_env sample_annotated))
     = [(12, Str ''Positivo'', Str ''Positivo''), (12, Str ''Positivo'', Str ''Positivo''),
        (5, Str ''Negative'', Str ''Negative''), (5, Str ''Negative'', Str ''Negative''),
        (5, Str ''Negative'', Str ''Negative'')]"
proof -
  have "map (\<lambda>(i, r). (int (length (py_str sample_env (review_content r))), compound r, compound r))
        sample_slice
     = [(12, Str ''Positivo'', Str ''Positivo''), (12, Str ''Positivo'', Str ''Positivo''),
        (5, Str ''Negative'', Str ''Negative''), (5, Str ''Negative'', Str ''Negative''),
        (5, Str ''Negative'', Str ''Negative'')]"
    by (simp add: sample_slice_def sample_annotated_def sample_english_def sample_detected_def
        sample_clean_def sample_defs row.defs lrow.defs srow.defs)
  then show ?thesis
    by (simp add: chart4_render sample_reshape)
qed

lemma sample_scores_before_line_71:
  "\<exists>d. add_scores sample_env sample_english = Inr d \<and>
     map (\<lambda>(i, r). compound r) d = [Num (Fin (- (1 / 4))), Num (Fin (1 / 2))]"
  by (simp add: add_scores_def apply_rows_def score_row_def sample_english_def
      sample_detected_def sample_clean_def sample_defs row.defs lrow.defs srow.defs)

text \<open>
  Claim C1. When chart 4 is drawn, the column \<^verbatim>\<open>compound\<close> does not hold the compound
  scores any more: line 71 has replaced every score by its label, so the y value and
  the colour of every point of the scatter plot are one of the three strings, not
  a number between -1 and 1. On the sample, the scores -0.25 and 0.5 of line 67 are
  plotted as \<^verbatim>\<open>Negative\<close> and \<^verbatim>\<open>Positivo\<close>.
\<close>

theorem chart4_sample_run:
  "run sample_env sample_rows = Inr (render sample_env (reshape sample_env sample_annotated)) \<and>
   (\<exists>d. add_scores sample_env sample_english = Inr d \<and>
      map (\<lambda>(i, r). compound r) d = [Num (Fin (- (1 / 4))), Num (Fin (1 / 2))]) \<and>
   longitud_vs_sentimiento (render sample_env (reshape sample_env sample_annotated))
     = [(12, Str ''Positivo'', Str ''Positivo''), (12, Str ''Positivo'', Str ''Positivo''),
        (5, Str ''Negative'', Str ''Negative''), (5, Str ''Negative'', Str ''Negative''),
        (5, Str ''Negative'', Str ''Negative'')]"
  using sample_run sample_scores_before_line_71 sample_chart4 by blast

subsection \<open>Further properties\<close>

text \<open>
  In every run the y value and the colour of every point of chart 4 are the same
  cell, and it is one of the three label strings.
\<close>

theorem chart4_plots_labels:
  assumes "run E rows = Inr rep" and "(x, y, c) \<in> set (longitud_vs_sentimiento rep)"
  shows "c = y \<and> y \<in> label_cells"
proof -
  from assms(1) obtain d where p: "prepare E rows = Inr d" and rep: "rep = render E (reshape E d)"
    by (auto simp: run_Inr)
  from assms(2) obtain j r' where "(j, r') \<in> set (df_exploded (reshape E d))"
    and "y = compound r'" and "c = compound r'"
    unfolding rep chart4_render by auto
  with slice_compound[of j r' E d] prepare_compound[OF p] show ?thesis by auto
qed

theorem chart4_plots_labels_witness:
  "run sample_env sample_rows = Inr (render sample_env (reshape sample_env sample_annotated)) \<and>
   (5, Str ''Negative'', Str ''Negative'')
     \<in> set (longitud_vs_sentimiento (render sample_env (reshape sample_env sample_annotated))) \<and>
   Str ''Negative'' \<in> label_cells"
proof -
  have "(5, Str ''Negative'', Str ''Negative'')
     \<in> set (longitud_vs_sentimiento (render sample_env (reshape sample_env sample_annotated)))"
    by (simp add: sample_chart4)
  with chart4_plots_labels[OF sample_run this] sample_run show ?thesis by simp
qed

text \<open>
  A deletion loop raises on a frame in which a label repeats: the frames of the
  script have distinct labels only because line 18 keeps the labels of
  \<^verbatim>\<open>read_csv\<close> and the loops run before \<^verbatim>\<open>explode\<close>.
\<close>

theorem repeated_label_raises:
  "\<not> distinct (map fst d) \<Longrightarrow> \<exists>e. drop_loop p (map fst d) d = Inl e"
  by (cases "drop_loop p (map fst d) d") (auto dest: drop_loop_Inr_distinct)

theorem repeated_label_witness:
  "\<not> distinct (map fst [(0, barred), (0, lamp)]) \<and>
   rating_loop [(0, barred), (0, lamp)] = Inl ValueError"
proof -
  have "\<not> distinct (map fst [(0::nat, barred), (0, lamp)])" by simp
  from repeated_label_raises[OF this, of rating_is_bar]
  show ?thesis by (simp add: rating_loop_def loc_def)
qed

end
